theory Spec2Isabelle
  imports Main "HOL-Library.Word"
begin

section \<open>JavaScript values\<close>

text \<open>
  \<^verbatim>\<open>src/lib/request.ts\<close> types almost everything as \<^verbatim>\<open>any\<close>, so the model works on a
  datatype of JavaScript values. An object is the list of its properties in the order
  \<^verbatim>\<open>Object.keys\<close> reports them: the keys that are array indices first, in ascending
  numeric order, then the other keys in the order of their insertion (\<open>obj_set\<close> below
  keeps that order, and \<open>objectLiteral\<close> builds an object from its insertions). The
  model does not separate own properties from inherited ones, so a stream is an
  object with a \<^verbatim>\<open>pipe\<close> property that is a function. Numbers are the integers and
  \<^verbatim>\<open>NaN\<close>. \<^verbatim>\<open>URLSearchParams\<close> and the multipart container are collaborators of the
  platform: such an object is the list of the \<^verbatim>\<open>append\<close> calls made on it, in order, each
  with the arguments as they were passed.
\<close>

datatype jsval =
    JUndefined
  | JNull
  | JBool bool
  | JNum int
  | JNaN
  | JStr string
  | JFun
  | JArr "jsval list"
  | JObj "(string \<times> jsval) list"
  | JSearchParams "(string \<times> jsval) list"
  | JFormData "(string \<times> jsval \<times> (string \<times> jsval) list option) list"

type_synonym obj = "(string \<times> jsval) list"

text \<open>One \<^verbatim>\<open>append(name, value, options?)\<close> call on the multipart container.\<close>

type_synonym field = "string \<times> jsval \<times> obj option"

datatype failure =
    TypeError
  | Foreign jsval
  | APIError int string jsval

text \<open>
  \<open>TypeError\<close> is what the engine throws on a property read of \<^verbatim>\<open>null\<close> or
  \<^verbatim>\<open>undefined\<close>; \<open>Foreign r\<close> is a rejection with reason \<open>r\<close> that a collaborator
  produced; \<open>APIError status statusText message\<close> is
  \<^verbatim>\<open>new APIError({ status, statusText, body: { message } })\<close> (the class lives in
  \<^verbatim>\<open>./error\<close>, outside this file, and is represented by its constructor's arguments).
\<close>

definition truthy :: "jsval \<Rightarrow> bool" where
  "truthy v =
     (case v of
        JUndefined \<Rightarrow> False
      | JNull \<Rightarrow> False
      | JBool b \<Rightarrow> b
      | JNum n \<Rightarrow> n \<noteq> 0
      | JNaN \<Rightarrow> False
      | JStr s \<Rightarrow> s \<noteq> []
      | _ \<Rightarrow> True)"

definition typeof :: "jsval \<Rightarrow> string" where
  "typeof v =
     (case v of
        JUndefined \<Rightarrow> ''undefined''
      | JBool _ \<Rightarrow> ''boolean''
      | JNum _ \<Rightarrow> ''number''
      | JNaN \<Rightarrow> ''number''
      | JStr _ \<Rightarrow> ''string''
      | JFun \<Rightarrow> ''function''
      | _ \<Rightarrow> ''object'')"

text \<open>\<^verbatim>\<open>v == null\<close>: the loose comparison holds of \<^verbatim>\<open>null\<close> and \<^verbatim>\<open>undefined\<close> only.\<close>

definition nullish :: "jsval \<Rightarrow> bool" where
  "nullish v = (v = JNull \<or> v = JUndefined)"

fun show_nat :: "nat \<Rightarrow> string" where
  "show_nat n =
     (if n < 10 then [''0123456789'' ! n]
      else show_nat (n div 10) @ [''0123456789'' ! (n mod 10)])"

declare show_nat.simps [simp del]

definition index_keys :: "nat \<Rightarrow> string list" where
  "index_keys n = map show_nat [0..<n]"

text \<open>
  \<^verbatim>\<open>Object.entries(v)\<close> for a value that is not \<^verbatim>\<open>null\<close> or \<^verbatim>\<open>undefined\<close>, which is
  also what a spread \<^verbatim>\<open>...v\<close> copies (a spread of \<^verbatim>\<open>null\<close> or \<^verbatim>\<open>undefined\<close> copies
  nothing): an array and a string have their indices as keys.
\<close>

definition entries :: "jsval \<Rightarrow> obj" where
  "entries v =
     (case v of
        JObj ps \<Rightarrow> ps
      | JArr xs \<Rightarrow> zip (index_keys (length xs)) xs
      | JStr s \<Rightarrow> zip (index_keys (length s)) (map (\<lambda>c. JStr [c]) s)
      | _ \<Rightarrow> [])"

text \<open>\<^verbatim>\<open>Object.keys(v)\<close> throws on \<^verbatim>\<open>null\<close> and \<^verbatim>\<open>undefined\<close>.\<close>

definition keys :: "jsval \<Rightarrow> failure + string list" where
  "keys v = (if nullish v then Inl TypeError else Inr (map fst (entries v)))"

text \<open>
  \<open>lookup ps k\<close> reads \<^verbatim>\<open>o[k]\<close> from the properties of an object, and \<open>propOf v k\<close> is
  \<^verbatim>\<open>v[k]\<close> and \<^verbatim>\<open>v.k\<close> on a value that is not \<^verbatim>\<open>null\<close> or \<^verbatim>\<open>undefined\<close>: a missing
  property reads as \<^verbatim>\<open>undefined\<close>. (The \<^verbatim>\<open>length\<close> of arrays and strings is not
  modelled; the code never reads it from such a value.)
\<close>

definition lookup :: "obj \<Rightarrow> string \<Rightarrow> jsval" where
  "lookup ps k = (case map_of ps k of Some x \<Rightarrow> x | None \<Rightarrow> JUndefined)"

definition propOf :: "jsval \<Rightarrow> string \<Rightarrow> jsval" where
  "propOf v k = lookup (entries v) k"

definition member :: "jsval \<Rightarrow> string \<Rightarrow> failure + jsval" where
  "member v k = (if nullish v then Inl TypeError else Inr (propOf v k))"

text \<open>Sequencing of steps that may throw.\<close>

definition bind :: "failure + 'a \<Rightarrow> ('a \<Rightarrow> failure + 'b) \<Rightarrow> failure + 'b" where
  "bind m f = (case m of Inl e \<Rightarrow> Inl e | Inr x \<Rightarrow> f x)"

fun forEach :: "'a list \<Rightarrow> ('s \<Rightarrow> 'a \<Rightarrow> failure + 's) \<Rightarrow> 's \<Rightarrow> failure + 's" where
  "forEach [] f s = Inr s"
| "forEach (x # xs) f s = bind (f s x) (forEach xs f)"

section \<open>Object literals, spread and delete\<close>

text \<open>
  A key is an array index when it is the canonical decimal numeral of a number below
  \<open>2^32 - 1\<close>: digits only, no leading zero, and at most \<^verbatim>\<open>4294967294\<close> (compared
  digit by digit with \<^verbatim>\<open>4294967295\<close> when it has ten digits). \<open>arrayIndex\<close> is its
  number.
\<close>

definition digitValue :: "char \<Rightarrow> nat option" where
  "digitValue c =
     (let n = (of_char c :: nat) in if 48 \<le> n \<and> n \<le> 57 then Some (n - 48) else None)"

fun parseDigits :: "nat \<Rightarrow> string \<Rightarrow> nat option" where
  "parseDigits acc [] = Some acc"
| "parseDigits acc (c # cs) =
     (case digitValue c of None \<Rightarrow> None | Some d \<Rightarrow> parseDigits (10 * acc + d) cs)"

fun digitsLess :: "string \<Rightarrow> string \<Rightarrow> bool" where
  "digitsLess (a # as) (b # bs) =
     ((of_char a :: nat) < of_char b \<or> (a = b \<and> digitsLess as bs))"
| "digitsLess _ _ = False"

definition arrayIndex :: "string \<Rightarrow> nat option" where
  "arrayIndex k =
     (if k = [] then None
      else case parseDigits 0 k of
             None \<Rightarrow> None
           | Some n \<Rightarrow>
               if show_nat n = k
                  \<and> (length k < 10 \<or> (length k = 10 \<and> digitsLess k ''4294967295''))
               then Some n else None)"

text \<open>
  Where a new key goes among the keys there are: an array index before every key that
  is not one and before every larger index; any other key behind all.
\<close>

definition newKeyBefore :: "string \<Rightarrow> string \<Rightarrow> bool" where
  "newKeyBefore k k' =
     (case arrayIndex k of
        None \<Rightarrow> False
      | Some i \<Rightarrow> (case arrayIndex k' of None \<Rightarrow> True | Some j \<Rightarrow> i < j))"

fun obj_insert :: "string \<Rightarrow> jsval \<Rightarrow> obj \<Rightarrow> obj" where
  "obj_insert k v [] = [(k, v)]"
| "obj_insert k v (p # ps) =
     (if newKeyBefore k (fst p) then (k, v) # p # ps else p # obj_insert k v ps)"

text \<open>
  \<open>obj_set k v ps\<close> is the assignment \<^verbatim>\<open>o[k] = v\<close>: an existing key keeps its place and
  gets the value, a new key goes where \<^verbatim>\<open>Object.keys\<close> lists it. \<open>objectLiteral\<close> is the
  object that \<^verbatim>\<open>{ k1: v1, ..., kn: vn }\<close> evaluates to, and also the object that has
  been given these properties one after the other. \<open>spread ps src\<close> continues an object
  literal whose properties so far are \<open>ps\<close> with \<^verbatim>\<open>...src\<close>. \<open>obj_delete k ps\<close> is
  \<^verbatim>\<open>delete o[k]\<close>.
\<close>

definition obj_set :: "string \<Rightarrow> jsval \<Rightarrow> obj \<Rightarrow> obj" where
  "obj_set k v ps =
     (if k \<in> fst ` set ps then map (\<lambda>p. if fst p = k then (k, v) else p) ps
      else obj_insert k v ps)"

definition objectLiteral :: "(string \<times> jsval) list \<Rightarrow> obj" where
  "objectLiteral ins = fold (\<lambda>(k, v). obj_set k v) ins []"

definition spread :: "obj \<Rightarrow> jsval \<Rightarrow> obj" where
  "spread ps src = fold (\<lambda>(k, v). obj_set k v) (entries src) ps"

definition obj_delete :: "string \<Rightarrow> obj \<Rightarrow> obj" where
  "obj_delete k ps = filter (\<lambda>p. fst p \<noteq> k) ps"

section \<open>Multipart assembly\<close>

text \<open>
  \<^verbatim>\<open>const isStream = (attachment) =>
    typeof attachment === 'object' && typeof attachment.pipe === 'function';\<close>
\<close>

definition isStream :: "jsval \<Rightarrow> failure + bool" where
  "isStream attachment =
     (if typeof attachment = ''object''
      then bind (member attachment ''pipe'') (\<lambda>pipe. Inr (typeof pipe = ''function''))
      else Inr False)"

text \<open>
  \<^verbatim>\<open>getAttachmentOptions\<close>, lines 14 to 32. A falsy \<^verbatim>\<open>contentType\<close> or \<^verbatim>\<open>knownLength\<close>
  is spread as it is and copies nothing.
\<close>

definition getAttachmentOptions :: "jsval \<Rightarrow> failure + obj" where
  "getAttachmentOptions item =
     (if typeof item \<noteq> ''object'' then Inr []
      else bind (isStream item) (\<lambda>stream.
        if stream then Inr []
        else
          let filename = propOf item ''filename'';
              contentType = propOf item ''contentType'';
              knownLength = propOf item ''knownLength'' in
          Inr ((if truthy filename then [(''filename'', filename)]
                else [(''filename'', JStr ''file'')])
             @ (if truthy contentType then [(''contentType'', contentType)] else [])
             @ (if truthy knownLength then [(''knownLength'', knownLength)] else []))))"

definition append :: "field list \<Rightarrow> string \<Rightarrow> jsval \<Rightarrow> obj option \<Rightarrow> field list" where
  "append formData name v options = formData @ [(name, v, options)]"

text \<open>
  The three statements that lines 177 to 179 run for an item of an array and lines 182
  to 184 run for a single value:
  \<^verbatim>\<open>const itemData = isStream(item) ? item : item.data;
  const options = getAttachmentOptions(item);
  formDataAcc.append(key, itemData, options);\<close>
\<close>

definition appendAttachment :: "string \<Rightarrow> field list \<Rightarrow> jsval \<Rightarrow> failure + field list" where
  "appendAttachment key formDataAcc item =
     bind (isStream item) (\<lambda>stream.
     bind (if stream then Inr item else member item ''data'') (\<lambda>itemData.
     bind (getAttachmentOptions item) (\<lambda>options.
       Inr (append formDataAcc key itemData (Some options)))))"

text \<open>The callback of \<^verbatim>\<open>reduce\<close>, lines 171 to 198; \<^verbatim>\<open>Array.isArray\<close> holds of the
  values \<open>JArr\<close>.\<close>

definition reducer :: "jsval \<Rightarrow> field list \<Rightarrow> string \<Rightarrow> failure + field list" where
  "reducer data formDataAcc key =
     (if key = ''attachment'' \<or> key = ''inline'' then
        (let obj = propOf data key in
         case obj of
           JArr items \<Rightarrow> forEach items (appendAttachment key) formDataAcc
         | _ \<Rightarrow> appendAttachment key formDataAcc obj)
      else
        (case propOf data key of
           JArr items \<Rightarrow>
             forEach items (\<lambda>acc item. Inr (append acc key item None)) formDataAcc
         | v \<Rightarrow> if \<not> nullish v then Inr (append formDataAcc key v None)
                else Inr formDataAcc))"

text \<open>
  \<^verbatim>\<open>createFormData\<close>, lines 168 to 201: the keys with a truthy value, reduced from an
  empty container.
\<close>

definition createFormData :: "jsval \<Rightarrow> failure + field list" where
  "createFormData data =
     bind (keys data) (\<lambda>ks.
       forEach (filter (\<lambda>key. truthy (propOf data key)) ks) (reducer data) [])"


section \<open>URL-encoded bodies\<close>

text \<open>
  \<^verbatim>\<open>objectToURLSearchParams\<close>, lines 60 to 70: \<^verbatim>\<open>null\<close> for a falsy argument, otherwise
  one \<^verbatim>\<open>append(key, value)\<close> for each entry.
\<close>

definition objectToURLSearchParams :: "jsval \<Rightarrow> jsval" where
  "objectToURLSearchParams data =
     (if \<not> truthy data then JNull
      else JSearchParams
             (fold (\<lambda>(k, v) urlencodedData. urlencodedData @ [(k, v)]) (entries data) []))"

section \<open>Promises, responses and the platform\<close>

datatype 'a promise = Resolved 'a | Rejected failure | Pending

text \<open>\<open>await p f\<close> continues with the value of \<open>p\<close>; a rejection or a promise that never
  settles ends the caller the same way.\<close>

definition await :: "'a promise \<Rightarrow> ('a \<Rightarrow> 'b promise) \<Rightarrow> 'b promise" where
  "await p f = (case p of Resolved x \<Rightarrow> f x | Rejected e \<Rightarrow> Rejected e | Pending \<Rightarrow> Pending)"

type_synonym buffer = "8 word list"

text \<open>What a stream emits to its listeners, in order.\<close>

datatype event = Data buffer | Error jsval | End

text \<open>
  The response of the transport: \<open>json\<close> is what \<^verbatim>\<open>response.json()\<close> settles to, and
  \<open>bodyEvents\<close> is what \<^verbatim>\<open>response.body\<close> emits when it is read as a stream.
\<close>

record response =
  ok :: bool
  status :: int
  statusText :: string
  body :: jsval
  bodyEvents :: "event list"
  json :: "jsval promise"

text \<open>\<^verbatim>\<open>interface APIResponse { status: number; body: any; }\<close>\<close>

record APIResponse =
  resBody :: jsval
  resStatus :: int

text \<open>
  The collaborators that \<^verbatim>\<open>request.ts\<close> imports or finds in the platform: \<^verbatim>\<open>btoa\<close>,
  \<^verbatim>\<open>url-join\<close>, \<^verbatim>\<open>String.prototype.toLocaleUpperCase\<close>,
  \<^verbatim>\<open>Buffer.concat(chunks).toString('utf8')\<close> as a function of the concatenated bytes,
  and \<^verbatim>\<open>ky\<close>, which is given a URL and an options object.
\<close>

record platform =
  Btoa :: "string \<Rightarrow> string"
  urljoin :: "string \<Rightarrow> string \<Rightarrow> string"
  toLocaleUpperCase :: "string \<Rightarrow> string"
  utf8 :: "buffer \<Rightarrow> string"
  ky :: "string \<Rightarrow> obj \<Rightarrow> response promise"

text \<open>
  \<^verbatim>\<open>streamToString\<close>, lines 34 to 41. The listeners see the events one after the other:
  \<^verbatim>\<open>data\<close> pushes the chunk, the first \<^verbatim>\<open>end\<close> or \<^verbatim>\<open>error\<close> settles the promise, and a
  stream that emits neither leaves it pending.
\<close>

fun listen :: "platform \<Rightarrow> buffer list \<Rightarrow> event list \<Rightarrow> string promise" where
  "listen P chunks [] = Pending"
| "listen P chunks (Data chunk # es) = listen P (chunks @ [chunk]) es"
| "listen P chunks (Error e # es) = Rejected (Foreign e)"
| "listen P chunks (End # es) = Resolved (utf8 P (concat chunks))"

definition streamToString :: "platform \<Rightarrow> event list \<Rightarrow> string promise" where
  "streamToString P stream = listen P [] stream"

section \<open>The request\<close>

text \<open>The fields of the class, lines 44 to 48 (\<open>formData\<close>, the constructor of the
  multipart container, is the empty list of fields that \<open>createFormData\<close> starts from).\<close>

record Request =
  username :: string
  key :: string
  url :: string
  timeout :: jsval
  headers :: jsval

text \<open>The constructor, lines 51 to 58, on the fields of its \<^verbatim>\<open>options\<close> argument.\<close>

definition constructor :: "string \<Rightarrow> string \<Rightarrow> string \<Rightarrow> jsval \<Rightarrow> jsval \<Rightarrow> Request" where
  "constructor optUsername optKey optUrl optTimeout optHeaders =
     \<lparr>username = optUsername, key = optKey, url = optUrl, timeout = optTimeout,
      headers = (if truthy optHeaders then optHeaders else JObj [])\<rparr>"

text \<open>
  \<^verbatim>\<open>Object.getOwnPropertyNames(v)\<close> for a truthy value: arrays and strings have their
  \<^verbatim>\<open>length\<close> besides their indices, a function has \<^verbatim>\<open>length\<close> and \<^verbatim>\<open>name\<close>.
\<close>

definition getOwnPropertyNames :: "jsval \<Rightarrow> string list" where
  "getOwnPropertyNames v =
     (case v of
        JArr xs \<Rightarrow> index_keys (length xs) @ [''length'']
      | JStr s \<Rightarrow> index_keys (length s) @ [''length'']
      | JFun \<Rightarrow> [''length'', ''name'']
      | _ \<Rightarrow> map fst (entries v))"

text \<open>
  What a call leaves behind: the two arguments that \<^verbatim>\<open>ky\<close> was called with, and what
  the returned promise settles to.
\<close>

record exchange =
  sentUrl :: string
  sentOptions :: obj
  settled :: "APIResponse promise"

text \<open>
  Lines 106 to 121 of \<^verbatim>\<open>request\<close>: what the call settles to, given the response of the
  transport.
\<close>

definition normalize :: "platform \<Rightarrow> response \<Rightarrow> APIResponse promise" where
  "normalize P response =
     (if \<not> ok response then
        await (if truthy (body response) \<and> isStream (body response) = Inr True
               then await (streamToString P (bodyEvents response))
                      (\<lambda>decoded. Resolved (JStr decoded))
               else json response) (\<lambda>message.
          Rejected (APIError (status response) (statusText response) message))
      else
        await (json response) (\<lambda>parsed.
          Resolved \<lparr>resBody = parsed, resStatus = status response\<rparr>))"

text \<open>
  Lines 74 to 79 of \<^verbatim>\<open>request\<close>: the header object, merged from the computed
  \<^verbatim>\<open>Authorization\<close>, \<^verbatim>\<open>this.headers\<close> and \<^verbatim>\<open>options.headers\<close>, in this order.
\<close>

definition mergeHeaders :: "platform \<Rightarrow> Request \<Rightarrow> obj \<Rightarrow> obj" where
  "mergeHeaders P this options =
     (let basic = Btoa P (username this @ '':'' @ key this) in
      spread (spread [(''Authorization'', JStr (''Basic '' @ basic))] (headers this))
             (lookup options ''headers''))"

text \<open>
  Lines 88 to 93 of \<^verbatim>\<open>request\<close>: \<^verbatim>\<open>params\<close> is a copy of \<^verbatim>\<open>options\<close>, and a truthy
  \<^verbatim>\<open>options.query\<close> with at least one own property name moves to
  \<^verbatim>\<open>params.searchParams\<close>.
\<close>

definition moveQuery :: "obj \<Rightarrow> obj" where
  "moveQuery options =
     (let params = spread [] (JObj options) in
      if truthy (lookup options ''query'')
         \<and> 0 < length (getOwnPropertyNames (lookup options ''query''))
      then obj_delete ''query'' (obj_set ''searchParams'' (lookup options ''query'') params)
      else params)"

text \<open>
  \<^verbatim>\<open>request\<close>, lines 72 to 104, then \<open>normalize\<close>. \<open>inputOptions\<close> is the value of the
  argument (\<^verbatim>\<open>undefined\<close> when it is left out). The local objects \<^verbatim>\<open>options\<close>,
  \<^verbatim>\<open>headers\<close> and \<^verbatim>\<open>params\<close> are property lists; each \<^verbatim>\<open>delete\<close> and assignment gives
  the next version of the list.
\<close>

definition request :: "platform \<Rightarrow> Request \<Rightarrow> string \<Rightarrow> string \<Rightarrow> jsval \<Rightarrow> exchange" where
  "request P this method path inputOptions =
     (let options0 = spread [] inputOptions;
          headers0 = mergeHeaders P this options0;
          options1 = obj_delete ''headers'' options0;
          headers1 = (if \<not> truthy (lookup headers0 ''Content-Type'')
                      then obj_delete ''Content-Type'' headers0 else headers0);
          params = moveQuery options1;
          target = urljoin P (url this) path;
          init = spread [(''method'', JStr (toLocaleUpperCase P method)),
                         (''headers'', JObj headers1),
                         (''throwHttpErrors'', JBool False),
                         (''timeout'', timeout this)]
                        (JObj params)
      in \<lparr>sentUrl = target, sentOptions = init,
          settled = await (ky P target init) (normalize P)\<rparr>)"

text \<open>\<^verbatim>\<open>query\<close> and \<^verbatim>\<open>command\<close>, lines 124 to 134: the object literal, then \<^verbatim>\<open>request\<close>.\<close>

definition query :: "platform \<Rightarrow> Request \<Rightarrow> string \<Rightarrow> string \<Rightarrow> jsval \<Rightarrow> jsval \<Rightarrow> exchange" where
  "query P this method path q options =
     request P this method path (JObj (spread [(''query'', q)] options))"

definition command :: "platform \<Rightarrow> Request \<Rightarrow> string \<Rightarrow> string \<Rightarrow> jsval \<Rightarrow> jsval \<Rightarrow> exchange" where
  "command P this method path data options =
     request P this method path
       (JObj (spread [(''headers'',
                        JObj [(''Content-Type'', JStr ''application/x-www-form-urlencoded'')]),
                      (''body'', data)]
                     options))"

text \<open>The wrappers, lines 136 to 166 and 203 to 213. A parameter that the caller leaves
  out is \<^verbatim>\<open>undefined\<close>.\<close>

definition get :: "platform \<Rightarrow> Request \<Rightarrow> string \<Rightarrow> jsval \<Rightarrow> jsval \<Rightarrow> exchange" where
  "get P this path q options = query P this ''get'' path q options"

definition head :: "platform \<Rightarrow> Request \<Rightarrow> string \<Rightarrow> jsval \<Rightarrow> jsval \<Rightarrow> exchange" where
  "head P this path q options = query P this ''head'' path q options"

definition options :: "platform \<Rightarrow> Request \<Rightarrow> string \<Rightarrow> jsval \<Rightarrow> jsval \<Rightarrow> exchange" where
  "options P this path q opts = query P this ''options'' path q opts"

definition post :: "platform \<Rightarrow> Request \<Rightarrow> string \<Rightarrow> jsval \<Rightarrow> jsval \<Rightarrow> exchange" where
  "post P this path data opts =
     command P this ''post'' path (objectToURLSearchParams data) opts"

definition put :: "platform \<Rightarrow> Request \<Rightarrow> string \<Rightarrow> jsval \<Rightarrow> jsval \<Rightarrow> exchange" where
  "put P this path data opts =
     command P this ''put'' path (objectToURLSearchParams data) opts"

definition patch :: "platform \<Rightarrow> Request \<Rightarrow> string \<Rightarrow> jsval \<Rightarrow> jsval \<Rightarrow> exchange" where
  "patch P this path data opts =
     command P this ''patch'' path (objectToURLSearchParams data) opts"

definition delete :: "platform \<Rightarrow> Request \<Rightarrow> string \<Rightarrow> jsval \<Rightarrow> jsval \<Rightarrow> exchange" where
  "delete P this path data opts =
     command P this ''delete'' path (objectToURLSearchParams data) opts"

text \<open>\<^verbatim>\<open>createFormData\<close> runs before \<^verbatim>\<open>command\<close>, in a function that is not
  \<^verbatim>\<open>async\<close>: when it throws, no request is made.\<close>

definition postMulti :: "platform \<Rightarrow> Request \<Rightarrow> string \<Rightarrow> jsval \<Rightarrow> failure + exchange" where
  "postMulti P this path data =
     (let params = JObj [(''headers'', JObj [(''Content-Type'', JNull)])] in
      bind (createFormData data) (\<lambda>formData.
        Inr (command P this ''post'' path (JFormData formData) params)))"

definition putMulti :: "platform \<Rightarrow> Request \<Rightarrow> string \<Rightarrow> jsval \<Rightarrow> failure + exchange" where
  "putMulti P this path data =
     (let params = JObj [(''headers'', JObj [(''Content-Type'', JNull)])] in
      bind (createFormData data) (\<lambda>formData.
        Inr (command P this ''put'' path (JFormData formData) params)))"


section \<open>The request on a store of objects\<close>

text \<open>
  Whether \<^verbatim>\<open>request\<close> writes to an object of its caller depends on which objects its
  statements work on, so here the objects live in a store: an address is an index into
  the heap, \<^verbatim>\<open>{ ... }\<close> allocates a new object behind all others, and an assignment or a
  \<^verbatim>\<open>delete\<close> changes the object at an address. \<open>self\<close> holds the fields of \<^verbatim>\<open>this\<close>.
  The caller's \<^verbatim>\<open>inputOptions\<close> is an address, or \<open>None\<close> when the argument is left
  out.
\<close>

type_synonym addr = nat

record store =
  self :: Request
  heap :: "obj list"

definition alloc :: "obj \<Rightarrow> store \<Rightarrow> addr \<times> store" where
  "alloc ps s = (length (heap s), s\<lparr>heap := heap s @ [ps]\<rparr>)"

definition objAt :: "store \<Rightarrow> addr \<Rightarrow> obj" where
  "objAt s a = heap s ! a"

definition assign :: "addr \<Rightarrow> string \<Rightarrow> jsval \<Rightarrow> store \<Rightarrow> store" where
  "assign a k v s = s\<lparr>heap := (heap s)[a := obj_set k v (heap s ! a)]\<rparr>"

definition remove :: "addr \<Rightarrow> string \<Rightarrow> store \<Rightarrow> store" where
  "remove a k s = s\<lparr>heap := (heap s)[a := obj_delete k (heap s ! a)]\<rparr>"

definition requestStore ::
  "platform \<Rightarrow> string \<Rightarrow> string \<Rightarrow> addr option \<Rightarrow> store \<Rightarrow> exchange \<times> store" where
  "requestStore P method path inputOptions s0 =
     (let (options, s1) =
            alloc (case inputOptions of None \<Rightarrow> [] | Some a \<Rightarrow> spread [] (JObj (objAt s0 a))) s0;
          (headers', s2) = alloc (mergeHeaders P (self s1) (objAt s1 options)) s1;
          s3 = remove options ''headers'' s2;
          s4 = (if \<not> truthy (lookup (objAt s3 headers') ''Content-Type'')
                then remove headers' ''Content-Type'' s3 else s3);
          (params, s5) = alloc (spread [] (JObj (objAt s4 options))) s4;
          s6 = (if truthy (lookup (objAt s5 options) ''query'')
                   \<and> 0 < length (getOwnPropertyNames (lookup (objAt s5 options) ''query''))
                then remove params ''query''
                       (assign params ''searchParams'' (lookup (objAt s5 options) ''query'') s5)
                else s5);
          target = urljoin P (url (self s6)) path;
          (init, s7) =
            alloc (spread [(''method'', JStr (toLocaleUpperCase P method)),
                           (''headers'', JObj (objAt s6 headers')),
                           (''throwHttpErrors'', JBool False),
                           (''timeout'', timeout (self s6))]
                          (JObj (objAt s6 params))) s6
      in (\<lparr>sentUrl = target, sentOptions = objAt s7 init,
           settled = await (ky P target (objAt s7 init)) (normalize P)\<rparr>, s7))"


section \<open>Observations and a platform for the examples\<close>

text \<open>The header object among the options that \<^verbatim>\<open>ky\<close> was given.\<close>

definition sentHeaders :: "exchange \<Rightarrow> obj" where
  "sentHeaders x = entries (lookup (sentOptions x) ''headers'')"

text \<open>The own keys of a value, as a set.\<close>

abbreviation keySet :: "jsval \<Rightarrow> string set" where
  "keySet v \<equiv> fst ` set (entries v)"

text \<open>
  The order of \<^verbatim>\<open>Object.keys\<close>, between a property and a later one: the later one is
  not an array index, or both are and the indices ascend.
\<close>

abbreviation keyOrder :: "string \<times> jsval \<Rightarrow> string \<times> jsval \<Rightarrow> bool" where
  "keyOrder p q \<equiv> arrayIndex (fst q) = None \<or> newKeyBefore (fst p) (fst q)"

text \<open>A spec with a callable \<^verbatim>\<open>pipe\<close> property, in the words of \<^verbatim>\<open>isStream\<close>.\<close>

abbreviation hasCallablePipe :: "jsval \<Rightarrow> bool" where
  "hasCallablePipe item \<equiv>
     typeof item = ''object'' \<and> typeof (propOf item ''pipe'') = ''function''"

text \<open>
  The examples run on a platform whose transport answers every call with one given
  response. Its \<^verbatim>\<open>btoa\<close> only marks its argument, its \<^verbatim>\<open>url-join\<close> concatenates, and
  its upper-casing and its decoding are right on ASCII.
\<close>

definition asciiUpper :: "char \<Rightarrow> char" where
  "asciiUpper c =
     (let n = (of_char c :: nat) in if 97 \<le> n \<and> n \<le> 122 then char_of (n - 32) else c)"

definition asciiDecode :: "buffer \<Rightarrow> string" where
  "asciiDecode bytes = map (\<lambda>b. char_of (unat b)) bytes"

definition examplePlatform :: "response \<Rightarrow> platform" where
  "examplePlatform r =
     \<lparr>Btoa = (\<lambda>s. ''base64('' @ s @ '')''),
      urljoin = (\<lambda>base path. base @ path),
      toLocaleUpperCase = map asciiUpper,
      utf8 = asciiDecode,
      ky = (\<lambda>target init. Resolved r)\<rparr>"

definition exampleRequest :: Request where
  "exampleRequest =
     constructor ''api'' ''secret'' ''https://api.example.net'' (JNum 60000) JUndefined"

text \<open>
  Four responses: a success with a JSON body; an error whose JSON body is
  \<^verbatim>\<open>{"message":"bad"}\<close>; an error whose body is a stream that emits \<^verbatim>\<open>"ab"\<close>, then
  \<^verbatim>\<open>"cd"\<close>, then ends; and an error whose body is not a stream and not JSON, so that
  \<^verbatim>\<open>json()\<close> rejects.
\<close>

definition okResponse :: response where
  "okResponse =
     \<lparr>ok = True, status = 200, statusText = ''OK'', body = JNull, bodyEvents = [],
      json = Resolved (JObj [(''items'', JArr [])])\<rparr>"

definition jsonError :: response where
  "jsonError =
     \<lparr>ok = False, status = 401, statusText = ''Unauthorized'', body = JNull, bodyEvents = [],
      json = Resolved (JObj [(''message'', JStr ''bad'')])\<rparr>"

definition streamedError :: response where
  "streamedError =
     \<lparr>ok = False, status = 400, statusText = ''Bad Request'',
      body = JObj [(''pipe'', JFun)],
      bodyEvents = [Data [97, 98], Data [99, 100], End],
      json = Pending\<rparr>"

definition badGateway :: response where
  "badGateway =
     \<lparr>ok = False, status = 502, statusText = ''Bad Gateway'', body = JNull, bodyEvents = [],
      json = Rejected (Foreign (JStr ''SyntaxError: Unexpected token <''))\<rparr>"


section \<open>Properties of the multipart assembly\<close>

subsection \<open>Sequencing and the loops\<close>

lemma bind_Inr_iff: "bind m f = Inr r \<longleftrightarrow> (\<exists>x. m = Inr x \<and> f x = Inr r)"
  by (cases m) (simp_all add: bind_def)

lemma bind_Inr [simp]: "bind (Inr x) f = f x"
  by (simp add: bind_def)

lemma bind_Inl [simp]: "bind (Inl e) f = Inl e"
  by (simp add: bind_def)

lemma forEach_plain:
  "forEach items (\<lambda>acc item. Inr (acc @ [(k, item, None)])) acc =
     Inr (acc @ map (\<lambda>item. (k, item, None)) items)"
  by (induction items arbitrary: acc) simp_all

lemma append_nil: "append acc k v os = acc @ [(k, v, os)]"
  by (simp add: append_def)

lemma appendAttachment_acc:
  "appendAttachment k acc item = Inr r \<longleftrightarrow>
     (\<exists>v os. appendAttachment k [] item = Inr [(k, v, Some os)] \<and> r = acc @ [(k, v, Some os)])"
  by (auto simp: appendAttachment_def append_def bind_Inr_iff)

lemma appendAttachment_single:
  "appendAttachment k [] item = Inr c \<Longrightarrow> \<exists>v os. c = [(k, v, Some os)]"
  using appendAttachment_acc [of k "[]" item c] by auto

lemma forEach_appendAttachment:
  "forEach items (appendAttachment k) acc = Inr r \<longleftrightarrow>
     (\<exists>fs. list_all2 (\<lambda>item f. appendAttachment k [] item = Inr [f]) items fs \<and>
           (\<forall>f \<in> set fs. fst f = k) \<and> r = acc @ fs)"
proof (induction items arbitrary: acc r)
  case Nil
  then show ?case by auto
next
  case (Cons item items)
  show ?case
  proof
    assume "forEach (item # items) (appendAttachment k) acc = Inr r"
    then obtain a where a: "appendAttachment k acc item = Inr a"
      and r: "forEach items (appendAttachment k) a = Inr r"
      by (auto simp: bind_Inr_iff)
    from a obtain v os where f: "appendAttachment k [] item = Inr [(k, v, Some os)]"
      and a': "a = acc @ [(k, v, Some os)]"
      using appendAttachment_acc by blast
    from r Cons.IH obtain fs where
      fs: "list_all2 (\<lambda>item f. appendAttachment k [] item = Inr [f]) items fs"
        "\<forall>f \<in> set fs. fst f = k" "r = a @ fs"
      by blast
    show "\<exists>fs. list_all2 (\<lambda>item f. appendAttachment k [] item = Inr [f]) (item # items) fs \<and>
           (\<forall>f \<in> set fs. fst f = k) \<and> r = acc @ fs"
      using f a' fs by (intro exI [of _ "(k, v, Some os) # fs"]) simp
  next
    assume "\<exists>fs. list_all2 (\<lambda>item f. appendAttachment k [] item = Inr [f]) (item # items) fs \<and>
           (\<forall>f \<in> set fs. fst f = k) \<and> r = acc @ fs"
    then obtain fs where
      fs: "list_all2 (\<lambda>item f. appendAttachment k [] item = Inr [f]) (item # items) fs"
      "\<forall>f \<in> set fs. fst f = k" "r = acc @ fs" by blast
    then obtain f fs' where fs': "fs = f # fs'" by (cases fs) auto
    with fs have f: "appendAttachment k [] item = Inr [f]"
      and rest: "list_all2 (\<lambda>item f. appendAttachment k [] item = Inr [f]) items fs'" by auto
    from f have "appendAttachment k acc item = Inr (acc @ [f])"
      using appendAttachment_acc [of k acc item "acc @ [f]"]
      by (auto simp: appendAttachment_def append_def bind_Inr_iff)
    moreover have "forEach items (appendAttachment k) (acc @ [f]) = Inr r"
      using Cons.IH [of "acc @ [f]" r] rest fs fs' by auto
    ultimately show "forEach (item # items) (appendAttachment k) acc = Inr r"
      by simp
  qed
qed

lemma reducer_acc:
  "reducer data acc k = Inr r \<longleftrightarrow>
     (\<exists>c. reducer data [] k = Inr c \<and> (\<forall>f \<in> set c. fst f = k) \<and> r = acc @ c)"
proof (cases "k = ''attachment'' \<or> k = ''inline''")
  case True
  show ?thesis
  proof (cases "\<exists>items. propOf data k = JArr items")
    case True
    then obtain items where "propOf data k = JArr items" by blast
    with \<open>k = ''attachment'' \<or> k = ''inline''\<close> show ?thesis
      using forEach_appendAttachment [of items k acc r]
        forEach_appendAttachment [of items k "[]"]
      by (auto simp: reducer_def Let_def)
  next
    case False
    then have "reducer data a k = appendAttachment k a (propOf data k)" for a
      using True by (cases "propOf data k") (auto simp: reducer_def Let_def)
    then show ?thesis
      using appendAttachment_acc [of k acc "propOf data k" r]
        appendAttachment_single [of k "propOf data k"]
      by (metis fst_conv empty_iff empty_set set_ConsD)
  qed
next
  case False
  then show ?thesis
    by (cases "propOf data k") (auto simp: reducer_def forEach_plain append_nil)
qed

lemma forEach_reducer:
  "forEach ks (reducer data) acc = Inr fs \<Longrightarrow>
     \<exists>cs. map (reducer data []) ks = map Inr cs \<and>
          list_all2 (\<lambda>k c. \<forall>f \<in> set c. fst f = k) ks cs \<and> fs = acc @ concat cs"
proof (induction ks arbitrary: acc)
  case Nil
  then show ?case by simp
next
  case (Cons k ks)
  from Cons.prems obtain a where a: "reducer data acc k = Inr a"
    and r: "forEach ks (reducer data) a = Inr fs"
    by (auto simp: bind_Inr_iff)
  from a obtain c where c: "reducer data [] k = Inr c" "\<forall>f \<in> set c. fst f = k" "a = acc @ c"
    using reducer_acc [of data acc k a] by blast
  from Cons.IH [OF r] obtain cs where cs: "map (reducer data []) ks = map Inr cs"
    "list_all2 (\<lambda>k c. \<forall>f \<in> set c. fst f = k) ks cs" "fs = a @ concat cs"
    by blast
  show ?case
    using c cs by (intro exI [of _ "c # cs"]) simp
qed

lemma named_concat:
  assumes "map (reducer data []) ks = map Inr cs"
    and "list_all2 (\<lambda>k c. \<forall>f \<in> set c. fst f = k) ks cs"
    and "distinct ks"
  shows "if k \<in> set ks then reducer data [] k = Inr (filter (\<lambda>f. fst f = k) (concat cs))
         else filter (\<lambda>f. fst f = k) (concat cs) = []"
  using assms
proof (induction ks arbitrary: cs)
  case Nil
  then show ?case by simp
next
  case (Cons a ks)
  then obtain c cs' where cs: "cs = c # cs'" by (cases cs) auto
  with Cons.prems have c: "reducer data [] a = Inr c" "\<forall>f \<in> set c. fst f = a"
    and rest: "map (reducer data []) ks = map Inr cs'"
      "list_all2 (\<lambda>k c. \<forall>f \<in> set c. fst f = k) ks cs'" "distinct ks" "a \<notin> set ks"
    by auto
  note IH = Cons.IH [OF rest(1,2,3)]
  show ?case
  proof (cases "k = a")
    case True
    with rest(4) IH have "filter (\<lambda>f. fst f = k) (concat cs') = []" by simp
    moreover from c True have "filter (\<lambda>f. fst f = k) c = c" by (simp add: filter_id_conv)
    ultimately show ?thesis using c True cs by simp
  next
    case False
    with c have "filter (\<lambda>f. fst f = k) c = []" by (auto simp: filter_empty_conv)
    with False IH cs show ?thesis by simp
  qed
qed

lemma truthy_propOf_key: "truthy (propOf data k) \<Longrightarrow> k \<in> fst ` set (entries data)"
  by (auto simp: propOf_def lookup_def truthy_def split: option.splits dest: map_of_SomeD intro: rev_image_eqI)

lemma createFormData_named:
  assumes "createFormData data = Inr fs" and "distinct (map fst (entries data))"
  shows "if truthy (propOf data k) then reducer data [] k = Inr (filter (\<lambda>f. fst f = k) fs)
         else filter (\<lambda>f. fst f = k) fs = []"
proof -
  let ?ks = "filter (\<lambda>k. truthy (propOf data k)) (map fst (entries data))"
  from assms(1) have run: "forEach ?ks (reducer data) [] = Inr fs"
    by (auto simp: createFormData_def keys_def bind_Inr_iff split: if_splits)
  from forEach_reducer [OF run] obtain cs where cs: "map (reducer data []) ?ks = map Inr cs"
    "list_all2 (\<lambda>k c. \<forall>f \<in> set c. fst f = k) ?ks cs" "fs = concat cs"
    by auto
  have d: "distinct ?ks" using assms(2) by simp
  have "k \<in> set ?ks \<longleftrightarrow> truthy (propOf data k)"
    using truthy_propOf_key [of data k] by auto
  with named_concat [OF cs(1,2) d, of k] cs(3) show ?thesis by simp
qed

lemma lookup_distinct: "distinct (map fst ps) \<Longrightarrow> (k, v) \<in> set ps \<Longrightarrow> lookup ps k = v"
  by (simp add: lookup_def)

lemma reducer_nonempty:
  assumes "reducer data [] k = Inr c" and "truthy (propOf data k)" and "propOf data k \<noteq> JArr []"
  shows "c \<noteq> []"
proof (cases "\<exists>items. propOf data k = JArr items")
  case True
  then obtain items where items: "propOf data k = JArr items" by blast
  with assms(3) have ne: "items \<noteq> []" by auto
  show ?thesis
  proof (cases "k = ''attachment'' \<or> k = ''inline''")
    case True
    with items assms(1) have "forEach items (appendAttachment k) [] = Inr c"
      by (auto simp: reducer_def Let_def)
    then obtain fs where "list_all2 (\<lambda>item f. appendAttachment k [] item = Inr [f]) items fs"
      "c = fs"
      using forEach_appendAttachment [of items k "[]" c] by auto
    with ne show ?thesis by (auto simp: list_all2_Nil2)
  next
    case False
    with items assms(1) ne show ?thesis
      by (auto simp: reducer_def forEach_plain append_nil)
  qed
next
  case False
  show ?thesis
  proof (cases "k = ''attachment'' \<or> k = ''inline''")
    case True
    with False have "reducer data [] k = appendAttachment k [] (propOf data k)"
      by (cases "propOf data k") (auto simp: reducer_def Let_def)
    with assms(1) show ?thesis
      using appendAttachment_single [of k "propOf data k" c] by auto
  next
    case nr: False
    with False assms(1,2) show ?thesis
      by (cases "propOf data k") (auto simp: reducer_def append_nil nullish_def truthy_def)
  qed
qed

lemma named_empty_iff: "filter (\<lambda>f. fst f = k) fs = [] \<longleftrightarrow> k \<notin> fst ` set fs"
  by (auto simp: filter_empty_conv)

lemma appendAttachment_field:
  assumes "appendAttachment k [] item = Inr [f]"
  shows "f = (k,
              (if hasCallablePipe item then item else propOf item ''data''),
              Some (if hasCallablePipe item \<or> typeof item \<noteq> ''object'' then []
                    else [(''filename'', if truthy (propOf item ''filename'')
                                         then propOf item ''filename'' else JStr ''file'')]
                       @ (if truthy (propOf item ''contentType'')
                          then [(''contentType'', propOf item ''contentType'')] else [])
                       @ (if truthy (propOf item ''knownLength'')
                          then [(''knownLength'', propOf item ''knownLength'')] else [])))"
  using assms
  by (auto simp: appendAttachment_def isStream_def member_def getAttachmentOptions_def
      bind_Inr_iff append_def Let_def split: if_splits)

subsection \<open>Attachment specs\<close>

text \<open>
  C3, as amended. Let \<^verbatim>\<open>createFormData\<close> return for a mapping that has a truthy value under
  \<^verbatim>\<open>attachment\<close> or \<^verbatim>\<open>inline\<close>; the specs are the elements of that value when it is an
  array, and the value itself otherwise. Then the fields of that name are the fields of
  the specs, one each and in order. A spec with a callable \<^verbatim>\<open>pipe\<close> is the payload itself
  and its options are empty. Any other spec has its \<^verbatim>\<open>data\<close> attribute as payload; when
  it is an object its options are \<^verbatim>\<open>filename\<close> (the given one, or \<^verbatim>\<open>'file'\<close>),
  \<^verbatim>\<open>contentType\<close> when truthy and \<^verbatim>\<open>knownLength\<close> when truthy, and when it is not an
  object (a string, a number, a boolean, a function) its options are empty. The example
  of the claim, \<^verbatim>\<open>{attachment: {data: buf, contentType: 'image/png'}}\<close>, gives the
  filename \<^verbatim>\<open>'file'\<close> and the content type \<^verbatim>\<open>'image/png'\<close>.
\<close>

theorem attachment_spec_field:
  assumes "createFormData (JObj ps) = Inr fs" and "distinct (map fst ps)"
    and "k = ''attachment'' \<or> k = ''inline''" and "(k, v) \<in> set ps" and "truthy v"
  shows "list_all2
           (\<lambda>item f.
              f = (k,
                   (if hasCallablePipe item then item else propOf item ''data''),
                   Some (if hasCallablePipe item \<or> typeof item \<noteq> ''object'' then []
                         else [(''filename'', if truthy (propOf item ''filename'')
                                              then propOf item ''filename'' else JStr ''file'')]
                            @ (if truthy (propOf item ''contentType'')
                               then [(''contentType'', propOf item ''contentType'')] else [])
                            @ (if truthy (propOf item ''knownLength'')
                               then [(''knownLength'', propOf item ''knownLength'')] else []))))
           (case v of JArr items \<Rightarrow> items | _ \<Rightarrow> [v])
           (filter (\<lambda>f. fst f = k) fs)
         \<and> createFormData
             (JObj [(''attachment'', JObj [(''data'', buf), (''contentType'', JStr ''image/png'')])])
           = Inr [(''attachment'', buf,
                   Some [(''filename'', JStr ''file''), (''contentType'', JStr ''image/png'')])]"
proof -
  let ?named = "filter (\<lambda>f. fst f = k) fs"
  have d: "distinct (map fst (entries (JObj ps)))" using assms(2) by (simp add: entries_def)
  have p: "propOf (JObj ps) k = v"
    using lookup_distinct [OF assms(2,4)] by (simp add: propOf_def entries_def)
  with assms(5) createFormData_named [OF assms(1) d, of k]
  have r: "reducer (JObj ps) [] k = Inr ?named" by simp
  have each: "list_all2 (\<lambda>item f. appendAttachment k [] item = Inr [f])
                (case v of JArr items \<Rightarrow> items | _ \<Rightarrow> [v]) ?named"
  proof (cases "\<exists>items. v = JArr items")
    case True
    then obtain items where v: "v = JArr items" by blast
    with r p assms(3) have "forEach items (appendAttachment k) [] = Inr ?named"
      by (auto simp: reducer_def Let_def)
    with v show ?thesis
      using forEach_appendAttachment [of items k "[]" ?named] by auto
  next
    case False
    with r p assms(3) have a: "appendAttachment k [] v = Inr ?named"
      by (cases v) (auto simp: reducer_def Let_def)
    then obtain f where "?named = [f]"
      using appendAttachment_single [of k v ?named] by auto
    with a False show ?thesis by (cases v) auto
  qed
  have 1: "list_all2
           (\<lambda>item f.
              f = (k,
                   (if hasCallablePipe item then item else propOf item ''data''),
                   Some (if hasCallablePipe item \<or> typeof item \<noteq> ''object'' then []
                         else [(''filename'', if truthy (propOf item ''filename'')
                                              then propOf item ''filename'' else JStr ''file'')]
                            @ (if truthy (propOf item ''contentType'')
                               then [(''contentType'', propOf item ''contentType'')] else [])
                            @ (if truthy (propOf item ''knownLength'')
                               then [(''knownLength'', propOf item ''knownLength'')] else []))))
           (case v of JArr items \<Rightarrow> items | _ \<Rightarrow> [v]) ?named"
    by (rule list_all2_mono [OF each]) (rule appendAttachment_field)
  have 2: "createFormData
             (JObj [(''attachment'', JObj [(''data'', buf), (''contentType'', JStr ''image/png'')])])
           = Inr [(''attachment'', buf,
                   Some [(''filename'', JStr ''file''), (''contentType'', JStr ''image/png'')])]"
    by (simp add: createFormData_def keys_def nullish_def entries_def propOf_def lookup_def
        truthy_def reducer_def appendAttachment_def isStream_def typeof_def member_def
        getAttachmentOptions_def append_def)
  from 1 2 show ?thesis by blast
qed

text \<open>The hypotheses of C3 hold of an array with a stream, an object and a string.\<close>

theorem attachment_spec_field_witness:
  "createFormData
     (JObj [(''inline'', JArr [JObj [(''pipe'', JFun)],
                               JObj [(''data'', JStr ''png-bytes''), (''filename'', JStr ''a.png''),
                                     (''knownLength'', JNum 9)],
                               JStr ''hello''])])
     = Inr [(''inline'', JObj [(''pipe'', JFun)], Some []),
            (''inline'', JStr ''png-bytes'',
               Some [(''filename'', JStr ''a.png''), (''knownLength'', JNum 9)]),
            (''inline'', JUndefined, Some [])] \<and>
   distinct (map fst [(''inline'', JArr [JObj [(''pipe'', JFun)],
                               JObj [(''data'', JStr ''png-bytes''), (''filename'', JStr ''a.png''),
                                     (''knownLength'', JNum 9)],
                               JStr ''hello''])]) \<and>
   truthy (JArr [JObj [(''pipe'', JFun)],
                 JObj [(''data'', JStr ''png-bytes''), (''filename'', JStr ''a.png''),
                       (''knownLength'', JNum 9)],
                 JStr ''hello'']) \<and>
   list_all2
     (\<lambda>item f.
        f = (''inline'',
             (if hasCallablePipe item then item else propOf item ''data''),
             Some (if hasCallablePipe item \<or> typeof item \<noteq> ''object'' then []
                   else [(''filename'', if truthy (propOf item ''filename'')
                                        then propOf item ''filename'' else JStr ''file'')]
                      @ (if truthy (propOf item ''contentType'')
                         then [(''contentType'', propOf item ''contentType'')] else [])
                      @ (if truthy (propOf item ''knownLength'')
                         then [(''knownLength'', propOf item ''knownLength'')] else []))))
     [JObj [(''pipe'', JFun)],
      JObj [(''data'', JStr ''png-bytes''), (''filename'', JStr ''a.png''), (''knownLength'', JNum 9)],
      JStr ''hello'']
     (filter (\<lambda>f. fst f = ''inline'')
        [(''inline'', JObj [(''pipe'', JFun)], Some []),
         (''inline'', JStr ''png-bytes'',
            Some [(''filename'', JStr ''a.png''), (''knownLength'', JNum 9)]),
         (''inline'', JUndefined, Some [])])"
proof -
  let ?v = "JArr [JObj [(''pipe'', JFun)],
                 JObj [(''data'', JStr ''png-bytes''), (''filename'', JStr ''a.png''),
                       (''knownLength'', JNum 9)],
                 JStr ''hello'']"
  let ?ps = "[(''inline'', ?v)]"
  let ?fs = "[(''inline'', JObj [(''pipe'', JFun)], Some []),
            (''inline'', JStr ''png-bytes'',
               Some [(''filename'', JStr ''a.png''), (''knownLength'', JNum 9)]),
            (''inline'', JUndefined, Some [])]"
  have run: "createFormData (JObj ?ps) = Inr ?fs" by code_simp
  have d: "distinct (map fst ?ps)" by simp
  have k: "''inline'' = ''attachment'' \<or> ''inline'' = ''inline''" by simp
  have m: "(''inline'', ?v) \<in> set ?ps" by simp
  have t: "truthy ?v" by (simp add: truthy_def)
  from attachment_spec_field [OF run d k m t] run d t show ?thesis
    by simp
qed

text \<open>
  C3 as stated fails for a spec that is not an object: the string \<^verbatim>\<open>'hello'\<close> has no
  callable \<^verbatim>\<open>pipe\<close>, and \<^verbatim>\<open>createFormData({attachment: 'hello'})\<close> appends a field
  whose options are empty, with no \<^verbatim>\<open>filename\<close>.
\<close>

theorem attachment_string_spec_counterexample:
  "isStream (JStr ''hello'') = Inr False \<and>
   createFormData (JObj [(''attachment'', JStr ''hello'')])
     = Inr [(''attachment'', JUndefined, Some [])]"
  by code_simp

subsection \<open>Falsy and truthy keys\<close>

text \<open>
  C4, as amended. When \<^verbatim>\<open>createFormData\<close> returns for a mapping, a key with a falsy
  value has no field in the result, and a key with a truthy value other than the empty
  array has at least one. \<^verbatim>\<open>createFormData({tags: ['a','b'], empty: '', skip: null})\<close>
  is the two fields \<^verbatim>\<open>tags\<close> with \<^verbatim>\<open>'a'\<close> and \<^verbatim>\<open>'b'\<close>, in this order.
\<close>

theorem createFormData_falsy_dropped:
  assumes "createFormData (JObj ps) = Inr fs" and "distinct (map fst ps)"
  shows "(\<not> truthy (lookup ps k) \<longrightarrow> k \<notin> fst ` set fs) \<and>
         (truthy (lookup ps k) \<and> lookup ps k \<noteq> JArr [] \<longrightarrow> k \<in> fst ` set fs) \<and>
         createFormData (JObj [(''tags'', JArr [JStr ''a'', JStr ''b'']),
                               (''empty'', JStr ''''), (''skip'', JNull)])
           = Inr [(''tags'', JStr ''a'', None), (''tags'', JStr ''b'', None)]"
proof -
  have d: "distinct (map fst (entries (JObj ps)))" using assms(2) by (simp add: entries_def)
  note named = createFormData_named [OF assms(1) d, of k]
  have p: "propOf (JObj ps) k = lookup ps k" by (simp add: propOf_def entries_def)
  have 1: "\<not> truthy (lookup ps k) \<longrightarrow> k \<notin> fst ` set fs"
    using named p by (auto simp: named_empty_iff [symmetric])
  have 2: "truthy (lookup ps k) \<and> lookup ps k \<noteq> JArr [] \<longrightarrow> k \<in> fst ` set fs"
  proof
    assume a: "truthy (lookup ps k) \<and> lookup ps k \<noteq> JArr []"
    with named p have "reducer (JObj ps) [] k = Inr (filter (\<lambda>f. fst f = k) fs)" by simp
    from reducer_nonempty [OF this] a p have "filter (\<lambda>f. fst f = k) fs \<noteq> []" by simp
    then show "k \<in> fst ` set fs" by (simp add: named_empty_iff)
  qed
  have 3: "createFormData (JObj [(''tags'', JArr [JStr ''a'', JStr ''b'']),
                               (''empty'', JStr ''''), (''skip'', JNull)])
           = Inr [(''tags'', JStr ''a'', None), (''tags'', JStr ''b'', None)]"
    by code_simp
  from 1 2 3 show ?thesis by blast
qed

text \<open>The hypotheses of C4 hold of a mapping with one truthy and two falsy values.\<close>

theorem createFormData_falsy_dropped_witness:
  "createFormData (JObj [(''to'', JStr ''a@b.c''), (''text'', JStr ''''), (''n'', JNum 0)])
     = Inr [(''to'', JStr ''a@b.c'', None)] \<and>
   distinct (map fst [(''to'', JStr ''a@b.c''), (''text'', JStr ''''), (''n'', JNum 0)]) \<and>
   \<not> truthy (lookup [(''to'', JStr ''a@b.c''), (''text'', JStr ''''), (''n'', JNum 0)] ''text'') \<and>
   ''text'' \<notin> fst ` set [(''to'', JStr ''a@b.c'', None :: obj option)] \<and>
   truthy (lookup [(''to'', JStr ''a@b.c''), (''text'', JStr ''''), (''n'', JNum 0)] ''to'') \<and>
   lookup [(''to'', JStr ''a@b.c''), (''text'', JStr ''''), (''n'', JNum 0)] ''to'' \<noteq> JArr [] \<and>
   ''to'' \<in> fst ` set [(''to'', JStr ''a@b.c'', None :: obj option)]"
proof -
  let ?ps = "[(''to'', JStr ''a@b.c''), (''text'', JStr ''''), (''n'', JNum 0)]"
  have run: "createFormData (JObj ?ps) = Inr [(''to'', JStr ''a@b.c'', None)]"
    by code_simp
  have d: "distinct (map fst ?ps)" by simp
  have l: "\<not> truthy (lookup ?ps ''text'')" "truthy (lookup ?ps ''to'')"
    "lookup ?ps ''to'' \<noteq> JArr []"
    by (simp_all add: lookup_def truthy_def)
  show ?thesis
    using createFormData_falsy_dropped [OF run d, of "''text''"]
      createFormData_falsy_dropped [OF run d, of "''to''"] run d l
    by simp
qed

text \<open>
  C4 as stated fails for the empty array, which is truthy and passes the filter, but
  has no element to append: \<^verbatim>\<open>createFormData({tags: []})\<close> has no field.
\<close>

theorem createFormData_empty_array_counterexample:
  "truthy (JArr []) \<and> createFormData (JObj [(''tags'', JArr [])]) = Inr []"
  by (simp add: truthy_def createFormData_def keys_def nullish_def entries_def propOf_def
      lookup_def reducer_def)

subsection \<open>Arrays\<close>

text \<open>
  C7. When \<^verbatim>\<open>createFormData\<close> returns for a mapping that has an array under a key, the
  fields of that name are as many as the elements. Under a key that is not reserved
  they are the elements themselves, in array order; under \<^verbatim>\<open>attachment\<close> or \<^verbatim>\<open>inline\<close>
  they are, in array order, the fields that the three statements of the loop body
  append for each spec.
\<close>

theorem createFormData_array_fields:
  assumes "createFormData (JObj ps) = Inr fs" and "distinct (map fst ps)"
    and "(k, JArr items) \<in> set ps"
  shows "length (filter (\<lambda>f. fst f = k) fs) = length items \<and>
         (if k = ''attachment'' \<or> k = ''inline''
          then list_all2 (\<lambda>item f. appendAttachment k [] item = Inr [f])
                 items (filter (\<lambda>f. fst f = k) fs)
          else filter (\<lambda>f. fst f = k) fs = map (\<lambda>item. (k, item, None)) items)"
proof -
  have d: "distinct (map fst (entries (JObj ps)))" using assms(2) by (simp add: entries_def)
  have p: "propOf (JObj ps) k = JArr items"
    using lookup_distinct [OF assms(2,3)] by (simp add: propOf_def entries_def)
  then have "truthy (propOf (JObj ps) k)" by (simp add: truthy_def)
  with createFormData_named [OF assms(1) d, of k]
  have r: "reducer (JObj ps) [] k = Inr (filter (\<lambda>f. fst f = k) fs)" by simp
  show ?thesis
  proof (cases "k = ''attachment'' \<or> k = ''inline''")
    case True
    with r p have "forEach items (appendAttachment k) [] = Inr (filter (\<lambda>f. fst f = k) fs)"
      by (auto simp: reducer_def Let_def)
    then have "list_all2 (\<lambda>item f. appendAttachment k [] item = Inr [f])
                 items (filter (\<lambda>f. fst f = k) fs)"
      using forEach_appendAttachment [of items k "[]" "filter (\<lambda>f. fst f = k) fs"] by auto
    with True show ?thesis by (auto dest: list_all2_lengthD)
  next
    case False
    with r p have "filter (\<lambda>f. fst f = k) fs = map (\<lambda>item. (k, item, None)) items"
      by (auto simp: reducer_def forEach_plain append_nil)
    with False show ?thesis by simp
  qed
qed

text \<open>The hypotheses of C7 hold of a mapping with an array of tags and an array of
  attachments.\<close>

theorem createFormData_array_fields_witness:
  "createFormData (JObj [(''o:tag'', JArr [JStr ''a'', JStr ''b'']),
                         (''attachment'', JArr [JObj [(''data'', JStr ''x'')]])])
     = Inr [(''o:tag'', JStr ''a'', None), (''o:tag'', JStr ''b'', None),
            (''attachment'', JStr ''x'', Some [(''filename'', JStr ''file'')])] \<and>
   distinct (map fst [(''o:tag'', JArr [JStr ''a'', JStr ''b'']),
                      (''attachment'', JArr [JObj [(''data'', JStr ''x'')]])]) \<and>
   filter (\<lambda>f. fst f = ''o:tag'')
     [(''o:tag'', JStr ''a'', None), (''o:tag'', JStr ''b'', None),
      (''attachment'', JStr ''x'', Some [(''filename'', JStr ''file'')])]
     = map (\<lambda>item. (''o:tag'', item, None)) [JStr ''a'', JStr ''b''] \<and>
   list_all2 (\<lambda>item f. appendAttachment ''attachment'' [] item = Inr [f])
     [JObj [(''data'', JStr ''x'')]]
     (filter (\<lambda>f. fst f = ''attachment'')
        [(''o:tag'', JStr ''a'', None), (''o:tag'', JStr ''b'', None),
         (''attachment'', JStr ''x'', Some [(''filename'', JStr ''file'')])])"
proof -
  let ?ps = "[(''o:tag'', JArr [JStr ''a'', JStr ''b'']),
              (''attachment'', JArr [JObj [(''data'', JStr ''x'')]])]"
  let ?fs = "[(''o:tag'', JStr ''a'', None), (''o:tag'', JStr ''b'', None),
            (''attachment'', JStr ''x'', Some [(''filename'', JStr ''file'')])]"
  have run: "createFormData (JObj ?ps) = Inr ?fs" by code_simp
  have d: "distinct (map fst ?ps)" by simp
  have m1: "(''o:tag'', JArr [JStr ''a'', JStr ''b'']) \<in> set ?ps" by simp
  have m2: "(''attachment'', JArr [JObj [(''data'', JStr ''x'')]]) \<in> set ?ps" by simp
  from createFormData_array_fields [OF run d m1] createFormData_array_fields [OF run d m2] run d
  show ?thesis by simp
qed

section \<open>Properties of the request\<close>

subsection \<open>Objects\<close>

lemma keys_obj_insert: "fst ` set (obj_insert k v ps) = insert k (fst ` set ps)"
  by (induction ps) auto

lemma map_fst_replace: "map fst (map (\<lambda>p. if fst p = k then (k, v) else p) ps) = map fst ps"
  by (induction ps) auto

lemma keys_obj_set: "fst ` set (obj_set k v ps) = insert k (fst ` set ps)"
proof (cases "k \<in> fst ` set ps")
  case True
  have "fst ` set (map (\<lambda>p. if fst p = k then (k, v) else p) ps) = fst ` set ps"
    using map_fst_replace [of k v ps] by (metis set_map)
  with True show ?thesis by (auto simp: obj_set_def)
next
  case False
  then show ?thesis by (simp add: obj_set_def keys_obj_insert)
qed

lemma lookup_Cons: "lookup ((k0, v0) # es) k = (if k = k0 then v0 else lookup es k)"
  by (simp add: lookup_def)

lemma lookup_obj_insert:
  "k \<notin> fst ` set ps \<Longrightarrow> lookup (obj_insert k v ps) k' = (if k' = k then v else lookup ps k')"
proof (induction ps)
  case Nil
  then show ?case by (simp add: lookup_def)
next
  case (Cons p ps)
  obtain k0 v0 where p: "p = (k0, v0)" by (cases p)
  with Cons show ?case by (auto simp: lookup_Cons)
qed

lemma lookup_replace_other:
  "k' \<noteq> k \<Longrightarrow> lookup (map (\<lambda>p. if fst p = k then (k, v) else p) ps) k' = lookup ps k'"
  by (induction ps) (simp_all add: lookup_def)

lemma lookup_replace_same:
  "k \<in> fst ` set ps \<Longrightarrow> lookup (map (\<lambda>p. if fst p = k then (k, v) else p) ps) k = v"
  by (induction ps) (auto simp: lookup_def)

lemma lookup_obj_set: "lookup (obj_set k v ps) k' = (if k' = k then v else lookup ps k')"
  by (simp add: obj_set_def lookup_obj_insert lookup_replace_other lookup_replace_same)

lemma lookup_obj_delete:
  "lookup (obj_delete k ps) k' = (if k' = k then JUndefined else lookup ps k')"
  by (induction ps) (auto simp: lookup_def obj_delete_def)

lemma keys_obj_delete: "fst ` set (obj_delete k ps) = fst ` set ps - {k}"
  by (auto simp: obj_delete_def)

lemma keys_fold_set:
  "fst ` set (fold (\<lambda>(k, v). obj_set k v) es ps) = fst ` set ps \<union> fst ` set es"
proof (induction es arbitrary: ps)
  case Nil
  then show ?case by simp
next
  case (Cons e es)
  obtain k0 v0 where e: "e = (k0, v0)" by (cases e)
  have "fst ` set (fold (\<lambda>(k, v). obj_set k v) (e # es) ps) =
        fst ` set (obj_set k0 v0 ps) \<union> fst ` set es"
    using Cons.IH [of "obj_set k0 v0 ps"] e by simp
  also have "\<dots> = fst ` set ps \<union> fst ` set (e # es)"
    using e by (simp add: keys_obj_set)
  finally show ?case .
qed

lemma lookup_fold_set:
  "distinct (map fst es) \<Longrightarrow>
   lookup (fold (\<lambda>(k, v). obj_set k v) es ps) k =
     (if k \<in> fst ` set es then lookup es k else lookup ps k)"
proof (induction es arbitrary: ps)
  case Nil
  then show ?case by simp
next
  case (Cons e es)
  obtain k0 v0 where e: "e = (k0, v0)" by (cases e)
  with Cons.prems have d: "distinct (map fst es)" and n: "k0 \<notin> fst ` set es" by auto
  show ?case
    using Cons.IH [OF d, of "obj_set k0 v0 ps"] e n
    by (simp add: lookup_obj_set lookup_Cons)
qed

lemma keys_spread: "fst ` set (spread ps src) = fst ` set ps \<union> keySet src"
  by (simp add: spread_def keys_fold_set)

lemma lookup_spread:
  "distinct (map fst (entries src)) \<Longrightarrow>
   lookup (spread ps src) k = (if k \<in> keySet src then propOf src k else lookup ps k)"
  by (simp add: spread_def lookup_fold_set propOf_def)

lemma fold_push: "fold (\<lambda>(k, v) acc. acc @ [(k, v)]) es acc = acc @ es"
  by (induction es arbitrary: acc) auto

subsection \<open>More on objects\<close>

lemma lookup_nil [simp]: "lookup [] k = JUndefined"
  by (simp add: lookup_def)

lemma lookup_absent: "k \<notin> fst ` set ps \<Longrightarrow> lookup ps k = JUndefined"
  by (induction ps) (auto simp: lookup_def)

lemma lookup_fold_absent:
  "k \<notin> fst ` set es \<Longrightarrow> lookup (fold (\<lambda>(k, v). obj_set k v) es ps) k = lookup ps k"
proof (induction es arbitrary: ps)
  case Nil
  then show ?case by simp
next
  case (Cons e es)
  obtain k0 v0 where e: "e = (k0, v0)" by (cases e)
  with Cons.prems have "k \<noteq> k0" "k \<notin> fst ` set es" by auto
  with Cons.IH [of "obj_set k0 v0 ps"] e show ?case by (simp add: lookup_obj_set)
qed

lemma lookup_spread_absent: "k \<notin> keySet src \<Longrightarrow> lookup (spread ps src) k = lookup ps k"
  by (simp add: spread_def lookup_fold_absent)

lemma distinct_obj_insert:
  "k \<notin> fst ` set ps \<Longrightarrow> distinct (map fst ps) \<Longrightarrow> distinct (map fst (obj_insert k v ps))"
proof (induction ps)
  case Nil
  then show ?case by simp
next
  case (Cons p ps)
  then show ?case using keys_obj_insert [of k v ps] by auto
qed

lemma distinct_obj_set: "distinct (map fst ps) \<Longrightarrow> distinct (map fst (obj_set k v ps))"
  using map_fst_replace [of k v ps] by (simp add: obj_set_def distinct_obj_insert del: map_map)

lemma distinct_obj_delete: "distinct (map fst ps) \<Longrightarrow> distinct (map fst (obj_delete k ps))"
  by (simp add: obj_delete_def distinct_map_filter)

lemma distinct_fold_set:
  "distinct (map fst ps) \<Longrightarrow> distinct (map fst (fold (\<lambda>(k, v). obj_set k v) es ps))"
  by (induction es arbitrary: ps) (auto simp: distinct_obj_set)

lemma distinct_spread: "distinct (map fst ps) \<Longrightarrow> distinct (map fst (spread ps src))"
  by (simp add: spread_def distinct_fold_set)

lemma obj_insert_last:
  "arrayIndex k = None \<Longrightarrow> obj_insert k v ps = ps @ [(k, v)]"
  by (induction ps) (simp_all add: newKeyBefore_def)

lemma obj_set_fresh:
  "k \<notin> fst ` set ps \<Longrightarrow> arrayIndex k = None \<Longrightarrow> obj_set k v ps = ps @ [(k, v)]"
  by (simp add: obj_set_def obj_insert_last)

lemma arrayIndex_show: "arrayIndex k = Some i \<Longrightarrow> k = show_nat i"
  by (auto simp: arrayIndex_def split: if_splits option.splits)

lemma arrayIndex_inj: "arrayIndex k = Some i \<Longrightarrow> arrayIndex k' = Some i \<Longrightarrow> k = k'"
  by (auto dest!: arrayIndex_show)

lemma keyOrder_insert_front:
  assumes "newKeyBefore k (fst p)" and "keyOrder p q"
  shows "keyOrder (k, v) q"
  using assms by (auto simp: newKeyBefore_def split: option.splits)

lemma keyOrder_insert_back:
  assumes "\<not> newKeyBefore k (fst p)" and "fst p \<noteq> k"
  shows "keyOrder p (k, v)"
proof (cases "arrayIndex k")
  case None
  then show ?thesis by simp
next
  case (Some i)
  show ?thesis
  proof (cases "arrayIndex (fst p)")
    case None
    with Some assms(1) show ?thesis by (simp add: newKeyBefore_def)
  next
    case (Some j)
    with \<open>arrayIndex k = Some i\<close> assms(1) have "\<not> i < j" by (simp add: newKeyBefore_def)
    moreover have "i \<noteq> j"
      using arrayIndex_inj [of k i "fst p"] \<open>arrayIndex k = Some i\<close> Some assms(2) by auto
    ultimately have "j < i" by simp
    with \<open>arrayIndex k = Some i\<close> Some show ?thesis by (simp add: newKeyBefore_def)
  qed
qed

lemma set_obj_insert: "set (obj_insert k v ps) = insert (k, v) (set ps)"
  by (induction ps) auto

lemma sorted_obj_insert:
  "sorted_wrt keyOrder ps \<Longrightarrow> k \<notin> fst ` set ps \<Longrightarrow> sorted_wrt keyOrder (obj_insert k v ps)"
proof (induction ps)
  case Nil
  then show ?case by simp
next
  case (Cons p ps)
  show ?case
  proof (cases "newKeyBefore k (fst p)")
    case True
    have "keyOrder (k, v) q" if "q \<in> set (p # ps)" for q
    proof (cases "q = p")
      case True
      with \<open>newKeyBefore k (fst p)\<close> show ?thesis by simp
    next
      case False
      with that Cons.prems(1) have "keyOrder p q" by auto
      with \<open>newKeyBefore k (fst p)\<close> show ?thesis by (rule keyOrder_insert_front)
    qed
    with True Cons.prems(1) show ?thesis by auto
  next
    case False
    from Cons.prems have n: "fst p \<noteq> k" and k: "k \<notin> fst ` set ps"
      and s: "sorted_wrt keyOrder ps" and a: "\<forall>q \<in> set ps. keyOrder p q"
      by auto
    have "keyOrder p (k, v)" using False n by (rule keyOrder_insert_back)
    with a have "\<forall>q \<in> set (obj_insert k v ps). keyOrder p q"
      by (simp add: set_obj_insert)
    with False Cons.IH [OF s k] show ?thesis by simp
  qed
qed

lemma sorted_replace:
  "sorted_wrt keyOrder ps \<Longrightarrow>
   sorted_wrt keyOrder (map (\<lambda>p. if fst p = k then (k, v) else p) ps)"
  by (simp add: sorted_wrt_map) (erule sorted_wrt_mono_rel [rotated], auto)

lemma sorted_obj_set: "sorted_wrt keyOrder ps \<Longrightarrow> sorted_wrt keyOrder (obj_set k v ps)"
  by (simp add: obj_set_def sorted_obj_insert sorted_replace)

lemma nonindex_obj_insert:
  "filter (\<lambda>p. arrayIndex (fst p) = None) (obj_insert k v ps) =
     filter (\<lambda>p. arrayIndex (fst p) = None) ps @ (if arrayIndex k = None then [(k, v)] else [])"
proof (cases "arrayIndex k")
  case None
  then show ?thesis by (simp add: obj_insert_last)
next
  case (Some i)
  then show ?thesis by (induction ps) auto
qed

lemma literal_fold:
  assumes "distinct (map fst ins)" and "fst ` set acc \<inter> fst ` set ins = {}"
    and "sorted_wrt keyOrder acc"
  shows "sorted_wrt keyOrder (fold (\<lambda>(k, v). obj_set k v) ins acc) \<and>
         set (fold (\<lambda>(k, v). obj_set k v) ins acc) = set acc \<union> set ins \<and>
         length (fold (\<lambda>(k, v). obj_set k v) ins acc) = length acc + length ins \<and>
         filter (\<lambda>p. arrayIndex (fst p) = None) (fold (\<lambda>(k, v). obj_set k v) ins acc) =
           filter (\<lambda>p. arrayIndex (fst p) = None) acc @ filter (\<lambda>p. arrayIndex (fst p) = None) ins"
  using assms
proof (induction ins arbitrary: acc)
  case Nil
  then show ?case by simp
next
  case (Cons e ins)
  obtain k v where e: "e = (k, v)" by (cases e)
  with Cons.prems have f: "k \<notin> fst ` set acc" and d: "distinct (map fst ins)"
    and n: "k \<notin> fst ` set ins" and i: "fst ` set acc \<inter> fst ` set ins = {}"
    by auto
  from f have s: "obj_set k v acc = obj_insert k v acc" by (simp add: obj_set_def)
  have 1: "fst ` set (obj_insert k v acc) \<inter> fst ` set ins = {}"
    using n i by (auto simp: keys_obj_insert)
  have 2: "sorted_wrt keyOrder (obj_insert k v acc)"
    using Cons.prems(3) f by (rule sorted_obj_insert)
  have l: "length (obj_insert k v acc) = Suc (length acc)" by (induction acc) auto
  from Cons.IH [OF d 1 2] show ?case
    using e s l by (auto simp: set_obj_insert nonindex_obj_insert)
qed


lemma obj_delete_absent: "k \<notin> fst ` set ps \<Longrightarrow> obj_delete k ps = ps"
  by (induction ps) (auto simp: obj_delete_def)

subsection \<open>URL-encoded bodies\<close>

lemma literal_order:
  assumes "distinct (map fst ins)"
  shows "sorted_wrt keyOrder (objectLiteral ins)"
    and "set (objectLiteral ins) = set ins"
    and "length (objectLiteral ins) = length ins"
    and "filter (\<lambda>p. arrayIndex (fst p) = None) (objectLiteral ins)
         = filter (\<lambda>p. arrayIndex (fst p) = None) ins"
  using literal_fold [OF assms, of "[]"] by (simp_all add: objectLiteral_def)

lemma literal_insertion_order:
  assumes "distinct (map fst ins)" and "list_all (\<lambda>p. arrayIndex (fst p) = None) ins"
  shows "objectLiteral ins = ins"
proof -
  from assms(2) have a: "\<forall>p \<in> set ins. arrayIndex (fst p) = None"
    by (simp add: list_all_iff)
  then have "filter (\<lambda>p. arrayIndex (fst p) = None) ins = ins" by simp
  moreover from a literal_order(2) [OF assms(1)]
  have "filter (\<lambda>p. arrayIndex (fst p) = None) (objectLiteral ins) = objectLiteral ins"
    by simp
  ultimately show ?thesis using literal_order(4) [OF assms(1)] by simp
qed

text \<open>
  C6, as amended. For a mapping, \<^verbatim>\<open>objectToURLSearchParams\<close> appends exactly the entries
  of the mapping, in the order of \<^verbatim>\<open>Object.entries\<close>. For the mapping that has been
  given N properties with distinct keys, these are N pairs, the same pairs, with the
  keys that are array indices first, in ascending order, and the other keys behind them
  in insertion order; so when no key is an array index the pairs are in insertion
  order. For \<^verbatim>\<open>null\<close> and \<^verbatim>\<open>undefined\<close> it returns \<^verbatim>\<open>null\<close>, which the empty mapping
  does not.
\<close>

theorem urlencoded_pairs:
  "objectToURLSearchParams (JObj ps) = JSearchParams ps \<and>
   (distinct (map fst ins) \<longrightarrow>
      objectToURLSearchParams (JObj (objectLiteral ins)) = JSearchParams (objectLiteral ins) \<and>
      length (objectLiteral ins) = length ins \<and>
      set (objectLiteral ins) = set ins \<and>
      sorted_wrt keyOrder (objectLiteral ins) \<and>
      filter (\<lambda>p. arrayIndex (fst p) = None) (objectLiteral ins)
        = filter (\<lambda>p. arrayIndex (fst p) = None) ins) \<and>
   (distinct (map fst ins) \<and> list_all (\<lambda>p. arrayIndex (fst p) = None) ins \<longrightarrow>
      objectToURLSearchParams (JObj (objectLiteral ins)) = JSearchParams ins) \<and>
   objectToURLSearchParams JNull = JNull \<and>
   objectToURLSearchParams JUndefined = JNull \<and>
   objectToURLSearchParams (JObj []) \<noteq> JNull"
proof -
  have e: "objectToURLSearchParams (JObj qs) = JSearchParams qs" for qs
    by (simp add: objectToURLSearchParams_def truthy_def entries_def fold_push)
  have n: "objectToURLSearchParams JNull = JNull" "objectToURLSearchParams JUndefined = JNull"
    by (simp_all add: objectToURLSearchParams_def truthy_def)
  have i: "distinct (map fst ins) \<and> list_all (\<lambda>p. arrayIndex (fst p) = None) ins \<longrightarrow>
      objectToURLSearchParams (JObj (objectLiteral ins)) = JSearchParams ins"
    using literal_insertion_order [of ins] by (simp add: e)
  have z: "objectToURLSearchParams (JObj []) \<noteq> JNull" by (simp add: e)
  from e [of ps] e [of "objectLiteral ins"] n literal_order [of ins] i z
  show ?thesis by blast
qed

text \<open>The hypotheses of C6 hold of the mapping given \<^verbatim>\<open>b\<close> and then \<^verbatim>\<open>1\<close>, and of a
  mapping without array indices.\<close>

theorem urlencoded_pairs_witness:
  "distinct (map fst [(''b'', JStr ''x''), (''1'', JStr ''y'')]) \<and>
   objectToURLSearchParams (JObj (objectLiteral [(''b'', JStr ''x''), (''1'', JStr ''y'')]))
     = JSearchParams (objectLiteral [(''b'', JStr ''x''), (''1'', JStr ''y'')]) \<and>
   length (objectLiteral [(''b'', JStr ''x''), (''1'', JStr ''y'')]) = 2 \<and>
   sorted_wrt keyOrder (objectLiteral [(''b'', JStr ''x''), (''1'', JStr ''y'')]) \<and>
   distinct (map fst [(''from'', JStr ''a@b.c''), (''to'', JStr ''d@e.f'')]) \<and>
   list_all (\<lambda>p. arrayIndex (fst p) = None) [(''from'', JStr ''a@b.c''), (''to'', JStr ''d@e.f'')] \<and>
   objectToURLSearchParams
       (JObj (objectLiteral [(''from'', JStr ''a@b.c''), (''to'', JStr ''d@e.f'')]))
     = JSearchParams [(''from'', JStr ''a@b.c''), (''to'', JStr ''d@e.f'')]"
proof -
  have d1: "distinct (map fst [(''b'', JStr ''x''), (''1'', JStr ''y'')])" by simp
  have d2: "distinct (map fst [(''from'', JStr ''a@b.c''), (''to'', JStr ''d@e.f'')])" by simp
  have a: "arrayIndex ''from'' = None" "arrayIndex ''to'' = None" by code_simp+
  then have l: "list_all (\<lambda>p. arrayIndex (fst p) = None)
                  [(''from'', JStr ''a@b.c''), (''to'', JStr ''d@e.f'')]" by simp
  have n: "length [(''b'', JStr ''x''), (''1'', JStr ''y'')] = 2" by simp
  note w1 = urlencoded_pairs [where ps = "[]"
      and ins = "[(''b'', JStr ''x''), (''1'', JStr ''y'')]"]
  note w2 = urlencoded_pairs [where ps = "[]"
      and ins = "[(''from'', JStr ''a@b.c''), (''to'', JStr ''d@e.f'')]"]
  from w1 d1 n
  have a1: "objectToURLSearchParams (JObj (objectLiteral [(''b'', JStr ''x''), (''1'', JStr ''y'')]))
       = JSearchParams (objectLiteral [(''b'', JStr ''x''), (''1'', JStr ''y'')]) \<and>
     length (objectLiteral [(''b'', JStr ''x''), (''1'', JStr ''y'')]) = 2 \<and>
     sorted_wrt keyOrder (objectLiteral [(''b'', JStr ''x''), (''1'', JStr ''y'')])"
    by metis
  from w2 d2 l
  have a2: "objectToURLSearchParams
       (JObj (objectLiteral [(''from'', JStr ''a@b.c''), (''to'', JStr ''d@e.f'')]))
     = JSearchParams [(''from'', JStr ''a@b.c''), (''to'', JStr ''d@e.f'')]"
    by blast
  from a1 a2 d1 d2 l show ?thesis by blast
qed

text \<open>
  C6 as stated fails for a key that is an array index: the mapping \<^verbatim>\<open>{b: 'x', 1: 'y'}\<close>
  has \<^verbatim>\<open>b\<close> inserted first, and \<^verbatim>\<open>Object.entries\<close> lists \<^verbatim>\<open>1\<close> first, so the body is
  \<^verbatim>\<open>1=y&b=x\<close>.
\<close>

theorem urlencoded_index_key_counterexample:
  "objectToURLSearchParams (JObj (objectLiteral [(''b'', JStr ''x''), (''1'', JStr ''y'')]))
     = JSearchParams [(''1'', JStr ''y''), (''b'', JStr ''x'')]"
  by code_simp

subsection \<open>What the transport is handed\<close>

lemma keys_moveQuery:
  "fst ` set (moveQuery os) =
     (if truthy (lookup os ''query'') \<and> 0 < length (getOwnPropertyNames (lookup os ''query''))
      then insert ''searchParams'' (fst ` set os) - {''query''} else fst ` set os)"
  by (simp add: moveQuery_def Let_def keys_obj_delete keys_obj_set keys_spread entries_def)

lemma request_params_keys:
  "''headers'' \<notin> fst ` set (moveQuery (obj_delete ''headers'' (spread [] io)))"
  by (simp add: keys_moveQuery keys_obj_delete)

lemma request_sentHeaders:
  "sentHeaders (request P this m path io) =
     (let merged = mergeHeaders P this (spread [] io) in
      if \<not> truthy (lookup merged ''Content-Type'')
      then obj_delete ''Content-Type'' merged else merged)"
proof -
  have "lookup (sentOptions (request P this m path io)) ''headers'' =
     JObj (let merged = mergeHeaders P this (spread [] io) in
      if \<not> truthy (lookup merged ''Content-Type'')
      then obj_delete ''Content-Type'' merged else merged)"
    using request_params_keys [of io]
    by (simp add: request_def Let_def lookup_spread_absent entries_def lookup_Cons)
  then show ?thesis by (simp add: sentHeaders_def entries_def)
qed

lemma request_sentOptions:
  "sentOptions (request P this m path io) =
     spread [(''method'', JStr (toLocaleUpperCase P m)),
             (''headers'', JObj (sentHeaders (request P this m path io))),
             (''throwHttpErrors'', JBool False),
             (''timeout'', timeout this)]
            (JObj (moveQuery (obj_delete ''headers'' (spread [] io))))"
  unfolding request_sentHeaders by (simp add: request_def Let_def)

lemma keys_mergeHeaders:
  "fst ` set (mergeHeaders P this os) =
     insert ''Authorization'' (keySet (headers this) \<union> keySet (lookup os ''headers''))"
  by (auto simp: mergeHeaders_def Let_def keys_spread)

lemma lookup_mergeHeaders:
  assumes "distinct (map fst (entries (headers this)))"
    and "distinct (map fst (entries (lookup os ''headers'')))"
  shows "lookup (mergeHeaders P this os) k =
     (if k \<in> keySet (lookup os ''headers'') then propOf (lookup os ''headers'') k
      else if k \<in> keySet (headers this) then propOf (headers this) k
      else if k = ''Authorization''
           then JStr (''Basic '' @ Btoa P (username this @ '':'' @ key this))
      else JUndefined)"
  using assms by (simp add: mergeHeaders_def Let_def lookup_spread lookup_Cons)

lemma lookup_options0:
  "distinct (map fst (entries io)) \<Longrightarrow> lookup (spread [] io) k = propOf io k"
  by (simp add: lookup_spread propOf_def lookup_absent)

lemma lookup_fold_present:
  "k \<in> fst ` set es \<Longrightarrow>
   lookup (fold (\<lambda>(k, v). obj_set k v) es ps) k = lookup (fold (\<lambda>(k, v). obj_set k v) es qs) k"
proof (induction es arbitrary: ps qs)
  case Nil
  then show ?case by simp
next
  case (Cons e es)
  obtain k0 v0 where e: "e = (k0, v0)" by (cases e)
  show ?case
  proof (cases "k \<in> fst ` set es")
    case True
    from Cons.IH [OF this] e show ?thesis by simp
  next
    case False
    with Cons.prems e have "k = k0" by auto
    with False e show ?thesis by (simp add: lookup_fold_absent lookup_obj_set)
  qed
qed

lemma command_call_headers:
  assumes "''headers'' \<in> keySet opts"
  shows "lookup (spread [] (JObj (spread [(''headers'', h), (''body'', d)] opts))) ''headers''
         = lookup (spread [] opts) ''headers''"
proof -
  let ?L = "spread [(''headers'', h), (''body'', d)] opts"
  have dL: "distinct (map fst (entries (JObj ?L)))"
    by (simp add: entries_def distinct_spread)
  have "lookup (spread [] (JObj ?L)) ''headers'' = lookup ?L ''headers''"
    using lookup_options0 [OF dL, of "''headers''"] by (simp add: propOf_def entries_def)
  also have "\<dots> = lookup (spread [] opts) ''headers''"
    using assms
      lookup_fold_present [of "''headers''" "entries opts" "[(''headers'', h), (''body'', d)]" "[]"]
    by (simp add: spread_def)
  finally show ?thesis .
qed

lemma multi_call_headers:
  "lookup (spread []
      (JObj (spread [(''headers'', JObj [(''Content-Type'', JStr ''application/x-www-form-urlencoded'')]),
                     (''body'', d)]
                    (JObj [(''headers'', JObj [(''Content-Type'', JNull)])])))) ''headers''
   = JObj [(''Content-Type'', JNull)]"
proof -
  let ?opts = "JObj [(''headers'', JObj [(''Content-Type'', JNull)])]"
  have k: "''headers'' \<in> keySet ?opts" by (simp add: entries_def)
  have d: "distinct (map fst (entries ?opts))" by (simp add: entries_def)
  have "lookup (spread [] ?opts) ''headers'' = JObj [(''Content-Type'', JNull)]"
    using lookup_options0 [OF d, of "''headers''"] by (simp add: propOf_def entries_def lookup_def)
  with command_call_headers [OF k] show ?thesis by simp
qed

lemma multi_sentHeaders:
  "''Content-Type'' \<notin> fst ` set (sentHeaders
     (command P this m path d (JObj [(''headers'', JObj [(''Content-Type'', JNull)])])))"
proof -
  let ?io = "JObj (spread [(''headers'', JObj [(''Content-Type'', JStr ''application/x-www-form-urlencoded'')]),
                     (''body'', d)]
                    (JObj [(''headers'', JObj [(''Content-Type'', JNull)])]))"
  let ?merged = "mergeHeaders P this (spread [] ?io)"
  have "?merged = obj_set ''Content-Type'' JNull
                    (spread [(''Authorization'', JStr (''Basic '' @ Btoa P (username this @ '':'' @ key this)))]
                       (headers this))"
    by (simp add: mergeHeaders_def multi_call_headers Let_def)
       (simp add: spread_def entries_def)
  then have "lookup ?merged ''Content-Type'' = JNull" by (simp add: lookup_obj_set)
  then have "sentHeaders (request P this m path ?io) = obj_delete ''Content-Type'' ?merged"
    by (simp add: request_sentHeaders Let_def truthy_def)
  then show ?thesis by (simp add: command_def keys_obj_delete)
qed

subsection \<open>The header merge\<close>

text \<open>
  C2, as amended. The header object that the transport is handed is the merge of the
  computed \<^verbatim>\<open>Authorization\<close>, the instance's default headers and the call-level
  headers, in increasing precedence, except that a \<^verbatim>\<open>Content-Type\<close> whose merged value
  is falsy is not in it. For every other key, and for a truthy \<^verbatim>\<open>Content-Type\<close>: a key
  of the call-level headers has the call-level value, a key of the defaults only has the
  default value, \<^verbatim>\<open>Authorization\<close> is the computed credential unless one of the two
  has that key, and no other key is present. The three objects have distinct keys, as
  objects do.
\<close>

theorem header_precedence:
  assumes "distinct (map fst (entries io))"
    and "distinct (map fst (entries (headers this)))"
    and "distinct (map fst (entries (propOf io ''headers'')))"
  shows "let call = propOf io ''headers'';
             dflt = headers this;
             merged = (if k \<in> keySet call then propOf call k
                       else if k \<in> keySet dflt then propOf dflt k
                       else if k = ''Authorization''
                            then JStr (''Basic '' @ Btoa P (username this @ '':'' @ key this))
                       else JUndefined);
             sent = sentHeaders (request P this m path io)
         in if k = ''Content-Type'' \<and> \<not> truthy merged then k \<notin> fst ` set sent
            else lookup sent k = merged \<and>
                 (k \<in> fst ` set sent \<longleftrightarrow>
                    k \<in> keySet call \<or> k \<in> keySet dflt \<or> k = ''Authorization'')"
proof -
  let ?M = "mergeHeaders P this (spread [] io)"
  have h: "lookup (spread [] io) ''headers'' = propOf io ''headers''"
    using assms(1) by (rule lookup_options0)
  have l: "lookup ?M k =
     (if k \<in> keySet (propOf io ''headers'') then propOf (propOf io ''headers'') k
      else if k \<in> keySet (headers this) then propOf (headers this) k
      else if k = ''Authorization''
           then JStr (''Basic '' @ Btoa P (username this @ '':'' @ key this))
      else JUndefined)" for k
    using lookup_mergeHeaders [of this "spread [] io" P k] assms(2,3) h by simp
  have ks: "k \<in> fst ` set ?M \<longleftrightarrow>
     k \<in> keySet (propOf io ''headers'') \<or> k \<in> keySet (headers this) \<or> k = ''Authorization''"
    for k
    using keys_mergeHeaders [of P this "spread [] io"] h by auto
  show ?thesis
  proof (cases "truthy (lookup ?M ''Content-Type'')")
    case True
    then have s: "sentHeaders (request P this m path io) = ?M"
      by (simp add: request_sentHeaders Let_def)
    show ?thesis
    proof (cases "k = ''Content-Type''")
      case ct: True
      with True s l [of k] ks [of k] show ?thesis by (simp add: Let_def)
    next
      case False
      with s l [of k] ks [of k] show ?thesis by (simp add: Let_def)
    qed
  next
    case False
    then have s: "sentHeaders (request P this m path io) = obj_delete ''Content-Type'' ?M"
      by (simp add: request_sentHeaders Let_def)
    show ?thesis
    proof (cases "k = ''Content-Type''")
      case True
      with False s l [of k] show ?thesis by (simp add: Let_def keys_obj_delete)
    next
      case nk: False
      with s l [of k] ks [of k] show ?thesis
        by (simp add: Let_def keys_obj_delete lookup_obj_delete)
    qed
  qed
qed

text \<open>The hypotheses of C2 hold of an instance with two default headers and a call
  that overrides one of them.\<close>

theorem header_precedence_witness:
  "distinct (map fst (entries (JObj [(''headers'', JObj [(''Accept'', JStr ''application/json'')])]))) \<and>
   distinct (map fst (entries (headers
     (exampleRequest\<lparr>headers := JObj [(''Accept'', JStr ''text/plain''), (''X-Client'', JStr ''a'')]\<rparr>)))) \<and>
   distinct (map fst (entries
     (propOf (JObj [(''headers'', JObj [(''Accept'', JStr ''application/json'')])]) ''headers''))) \<and>
   (let call = propOf (JObj [(''headers'', JObj [(''Accept'', JStr ''application/json'')])]) ''headers'';
        dflt = headers
          (exampleRequest\<lparr>headers := JObj [(''Accept'', JStr ''text/plain''), (''X-Client'', JStr ''a'')]\<rparr>);
        merged = (if ''Accept'' \<in> keySet call then propOf call ''Accept''
                  else if ''Accept'' \<in> keySet dflt then propOf dflt ''Accept''
                  else if ''Accept'' = ''Authorization''
                       then JStr (''Basic '' @ Btoa (examplePlatform okResponse)
                         (username (exampleRequest\<lparr>headers := JObj [(''Accept'', JStr ''text/plain''), (''X-Client'', JStr ''a'')]\<rparr>)
                          @ '':'' @
                          key (exampleRequest\<lparr>headers := JObj [(''Accept'', JStr ''text/plain''), (''X-Client'', JStr ''a'')]\<rparr>)))
                  else JUndefined);
        sent = sentHeaders (request (examplePlatform okResponse)
                 (exampleRequest\<lparr>headers := JObj [(''Accept'', JStr ''text/plain''), (''X-Client'', JStr ''a'')]\<rparr>)
                 ''get'' ''/v3/domains''
                 (JObj [(''headers'', JObj [(''Accept'', JStr ''application/json'')])]))
    in if ''Accept'' = ''Content-Type'' \<and> \<not> truthy merged then ''Accept'' \<notin> fst ` set sent
       else lookup sent ''Accept'' = merged \<and>
            (''Accept'' \<in> fst ` set sent \<longleftrightarrow>
               ''Accept'' \<in> keySet call \<or> ''Accept'' \<in> keySet dflt \<or> ''Accept'' = ''Authorization'')) \<and>
   lookup (sentHeaders (request (examplePlatform okResponse)
                 (exampleRequest\<lparr>headers := JObj [(''Accept'', JStr ''text/plain''), (''X-Client'', JStr ''a'')]\<rparr>)
                 ''get'' ''/v3/domains''
                 (JObj [(''headers'', JObj [(''Accept'', JStr ''application/json'')])]))) ''Accept''
     = JStr ''application/json''"
proof -
  let ?io = "JObj [(''headers'', JObj [(''Accept'', JStr ''application/json'')])]"
  let ?req = "exampleRequest\<lparr>headers := JObj [(''Accept'', JStr ''text/plain''), (''X-Client'', JStr ''a'')]\<rparr>"
  have d1: "distinct (map fst (entries ?io))" by (simp add: entries_def)
  have d2: "distinct (map fst (entries (headers ?req)))" by (simp add: entries_def)
  have d3: "distinct (map fst (entries (propOf ?io ''headers'')))"
    by (simp add: entries_def propOf_def lookup_def)
  note w = header_precedence [OF d1 d2 d3, of "''Accept''" "examplePlatform okResponse"
      "''get''" "''/v3/domains''"]
  have v: "lookup (sentHeaders (request (examplePlatform okResponse) ?req ''get'' ''/v3/domains'' ?io))
             ''Accept'' = JStr ''application/json''"
    using w by (simp add: Let_def entries_def propOf_def lookup_def)
  show ?thesis by (intro conjI) (rule d1 d2 d3 w v)+
qed

text \<open>
  C2 as stated fails at the key \<^verbatim>\<open>Content-Type\<close>: it is present at call level with the
  value \<^verbatim>\<open>null\<close>, as \<^verbatim>\<open>postMulti\<close> sends it, and the outgoing headers do not have the
  key at all.
\<close>

theorem falsy_content_type_counterexample:
  "sentHeaders (request (examplePlatform okResponse) exampleRequest ''post'' ''/v3/messages''
      (JObj [(''headers'', JObj [(''Content-Type'', JNull), (''X-Trace'', JStr ''1'')])]))
   = [(''Authorization'', JStr ''Basic base64(api:secret)''), (''X-Trace'', JStr ''1'')]"
  by code_simp

text \<open>
  C8. With \<open>mergeHeaders\<close> the merged mapping: when its \<^verbatim>\<open>Content-Type\<close> is absent or
  falsy, the headers that the transport is handed are the merged mapping with that key
  deleted, and do not have the key; when it is truthy, they are the merged mapping
  unchanged. The request of \<^verbatim>\<open>postMulti\<close> and of \<^verbatim>\<open>putMulti\<close> carries no
  \<^verbatim>\<open>Content-Type\<close>.
\<close>

theorem falsy_content_type_deleted:
  "(\<not> truthy (lookup (mergeHeaders P this (spread [] io)) ''Content-Type'') \<longrightarrow>
      sentHeaders (request P this m path io)
        = obj_delete ''Content-Type'' (mergeHeaders P this (spread [] io)) \<and>
      ''Content-Type'' \<notin> fst ` set (sentHeaders (request P this m path io))) \<and>
   (truthy (lookup (mergeHeaders P this (spread [] io)) ''Content-Type'') \<longrightarrow>
      sentHeaders (request P this m path io) = mergeHeaders P this (spread [] io)) \<and>
   (postMulti P this path d = Inr x \<longrightarrow> ''Content-Type'' \<notin> fst ` set (sentHeaders x)) \<and>
   (putMulti P this path d = Inr x \<longrightarrow> ''Content-Type'' \<notin> fst ` set (sentHeaders x))"
  using multi_sentHeaders [of P this "''post''" path]  multi_sentHeaders [of P this "''put''" path]
  by (auto simp: request_sentHeaders Let_def keys_obj_delete postMulti_def putMulti_def
      bind_Inr_iff)

text \<open>The hypotheses of C8 hold of a call with an empty \<^verbatim>\<open>Content-Type\<close>, of a call
  with \<^verbatim>\<open>text/plain\<close>, and of two multipart calls.\<close>

theorem falsy_content_type_deleted_witness:
  "\<not> truthy (lookup (mergeHeaders (examplePlatform okResponse) exampleRequest
        (spread [] (JObj [(''headers'', JObj [(''Content-Type'', JStr '''')])]))) ''Content-Type'') \<and>
   sentHeaders (request (examplePlatform okResponse) exampleRequest ''post'' ''/v3/messages''
        (JObj [(''headers'', JObj [(''Content-Type'', JStr '''')])]))
     = obj_delete ''Content-Type'' (mergeHeaders (examplePlatform okResponse) exampleRequest
        (spread [] (JObj [(''headers'', JObj [(''Content-Type'', JStr '''')])]))) \<and>
   ''Content-Type'' \<notin> fst ` set (sentHeaders (request (examplePlatform okResponse) exampleRequest
        ''post'' ''/v3/messages'' (JObj [(''headers'', JObj [(''Content-Type'', JStr '''')])]))) \<and>
   truthy (lookup (mergeHeaders (examplePlatform okResponse) exampleRequest
        (spread [] (JObj [(''headers'', JObj [(''Content-Type'', JStr ''text/plain'')])])))
        ''Content-Type'') \<and>
   sentHeaders (request (examplePlatform okResponse) exampleRequest ''post'' ''/v3/messages''
        (JObj [(''headers'', JObj [(''Content-Type'', JStr ''text/plain'')])]))
     = mergeHeaders (examplePlatform okResponse) exampleRequest
        (spread [] (JObj [(''headers'', JObj [(''Content-Type'', JStr ''text/plain'')])])) \<and>
   postMulti (examplePlatform okResponse) exampleRequest ''/v3/messages''
       (JObj [(''to'', JStr ''a@b.c'')])
     = Inr (command (examplePlatform okResponse) exampleRequest ''post'' ''/v3/messages''
         (JFormData [(''to'', JStr ''a@b.c'', None)])
         (JObj [(''headers'', JObj [(''Content-Type'', JNull)])])) \<and>
   ''Content-Type'' \<notin> fst ` set (sentHeaders
       (command (examplePlatform okResponse) exampleRequest ''post'' ''/v3/messages''
         (JFormData [(''to'', JStr ''a@b.c'', None)])
         (JObj [(''headers'', JObj [(''Content-Type'', JNull)])]))) \<and>
   putMulti (examplePlatform okResponse) exampleRequest ''/v3/routes''
       (JObj [(''to'', JStr ''a@b.c'')])
     = Inr (command (examplePlatform okResponse) exampleRequest ''put'' ''/v3/routes''
         (JFormData [(''to'', JStr ''a@b.c'', None)])
         (JObj [(''headers'', JObj [(''Content-Type'', JNull)])])) \<and>
   ''Content-Type'' \<notin> fst ` set (sentHeaders
       (command (examplePlatform okResponse) exampleRequest ''put'' ''/v3/routes''
         (JFormData [(''to'', JStr ''a@b.c'', None)])
         (JObj [(''headers'', JObj [(''Content-Type'', JNull)])])))"
proof -
  let ?P = "examplePlatform okResponse"
  let ?io1 = "JObj [(''headers'', JObj [(''Content-Type'', JStr '''')])]"
  let ?io2 = "JObj [(''headers'', JObj [(''Content-Type'', JStr ''text/plain'')])]"
  let ?x1 = "command ?P exampleRequest ''post'' ''/v3/messages''
         (JFormData [(''to'', JStr ''a@b.c'', None)])
         (JObj [(''headers'', JObj [(''Content-Type'', JNull)])])"
  let ?x2 = "command ?P exampleRequest ''put'' ''/v3/routes''
         (JFormData [(''to'', JStr ''a@b.c'', None)])
         (JObj [(''headers'', JObj [(''Content-Type'', JNull)])])"
  have f: "createFormData (JObj [(''to'', JStr ''a@b.c'')]) = Inr [(''to'', JStr ''a@b.c'', None)]"
    by code_simp
  have c1: "\<not> truthy (lookup (mergeHeaders ?P exampleRequest (spread [] ?io1)) ''Content-Type'')"
    by code_simp
  have c2: "truthy (lookup (mergeHeaders ?P exampleRequest (spread [] ?io2)) ''Content-Type'')"
    by code_simp
  have p1: "postMulti ?P exampleRequest ''/v3/messages'' (JObj [(''to'', JStr ''a@b.c'')]) = Inr ?x1"
    by (simp add: postMulti_def f)
  have p2: "putMulti ?P exampleRequest ''/v3/routes'' (JObj [(''to'', JStr ''a@b.c'')]) = Inr ?x2"
    by (simp add: putMulti_def f)
  from falsy_content_type_deleted [where P = ?P and this = exampleRequest and io = ?io1
      and m = "''post''" and path = "''/v3/messages''"
      and d = "JObj [(''to'', JStr ''a@b.c'')]" and x = ?x1]
    falsy_content_type_deleted [where P = ?P and this = exampleRequest and io = ?io2
      and m = "''post''" and path = "''/v3/messages''"
      and d = "JObj [(''to'', JStr ''a@b.c'')]" and x = ?x1]
    falsy_content_type_deleted [where P = ?P and this = exampleRequest and io = ?io2
      and m = "''post''" and path = "''/v3/routes''"
      and d = "JObj [(''to'', JStr ''a@b.c'')]" and x = ?x2]
    c1 c2 p1 p2
  show ?thesis by blast
qed

subsection \<open>The query\<close>

lemma query_literal:
  assumes "''query'' \<notin> keySet opts"
  shows "lookup (spread [(''query'', q)] opts) ''query'' = q"
    and "fst ` set (spread [(''query'', q)] opts) = insert ''query'' (keySet opts)"
    and "distinct (map fst (spread [(''query'', q)] opts))"
  using assms by (simp_all add: lookup_spread_absent lookup_Cons keys_spread distinct_spread)

text \<open>
  C5, as amended. Let the options argument of \<^verbatim>\<open>query\<close> have no \<^verbatim>\<open>query\<close> and no
  \<^verbatim>\<open>searchParams\<close> key of its own (as when it is left out). If the query mapping has at
  least one key, the transport is handed it as \<^verbatim>\<open>searchParams\<close> and is handed no
  \<^verbatim>\<open>query\<close> key; if it has none, the transport is handed no \<^verbatim>\<open>searchParams\<close>.
  \<^verbatim>\<open>get\<close>, \<^verbatim>\<open>head\<close> and \<^verbatim>\<open>options\<close> are \<^verbatim>\<open>query\<close> with their method.
\<close>

theorem query_searchParams:
  assumes "''query'' \<notin> keySet opts" and "''searchParams'' \<notin> keySet opts"
  shows "(qs \<noteq> [] \<longrightarrow>
            lookup (sentOptions (query P this m path (JObj qs) opts)) ''searchParams'' = JObj qs \<and>
            ''query'' \<notin> fst ` set (sentOptions (query P this m path (JObj qs) opts))) \<and>
         (qs = [] \<longrightarrow>
            ''searchParams'' \<notin> fst ` set (sentOptions (query P this m path (JObj qs) opts)))"
proof -
  let ?L = "spread [(''query'', JObj qs)] opts"
  let ?o1 = "obj_delete ''headers'' (spread [] (JObj ?L))"
  let ?p0 = "spread [] (JObj ?o1)"
  note L = query_literal [OF assms(1), of "JObj qs"]
  have dL: "distinct (map fst (entries (JObj ?L)))" using L(3) by (simp add: entries_def)
  have c: "lookup (spread [] (JObj ?L)) ''query'' = JObj qs"
    using lookup_options0 [OF dL, of "''query''"] L(1) by (simp add: propOf_def entries_def)
  have q: "lookup ?o1 ''query'' = JObj qs" by (simp add: c lookup_obj_delete)
  have k1: "fst ` set ?o1 = insert ''query'' (keySet opts) - {''headers''}"
    by (simp add: keys_obj_delete keys_spread entries_def L(2))
  have k0: "fst ` set ?p0 = fst ` set ?o1" by (simp add: keys_spread entries_def)
  have t: "truthy (JObj qs)" by (simp add: truthy_def)
  have n: "length (getOwnPropertyNames (JObj qs)) = length qs"
    by (simp add: getOwnPropertyNames_def entries_def)
  let ?p1 = "obj_delete ''query'' (obj_set ''searchParams'' (JObj qs) ?p0)"
  let ?init = "[(''method'', JStr (toLocaleUpperCase P m)),
                (''headers'', JObj (sentHeaders (request P this m path (JObj ?L)))),
                (''throwHttpErrors'', JBool False), (''timeout'', timeout this)]"
  have mq: "moveQuery ?o1 = (if qs \<noteq> [] then ?p1 else ?p0)"
    by (simp add: moveQuery_def Let_def q n t)
  have s: "sentOptions (query P this m path (JObj qs) opts) =
        spread ?init (JObj (if qs \<noteq> [] then ?p1 else ?p0))"
    unfolding query_def request_sentOptions mq ..
  show ?thesis
  proof (cases "qs = []")
    case True
    have "fst ` set (spread ?init (JObj ?p0)) =
        {''method'', ''headers'', ''throwHttpErrors'', ''timeout''} \<union> fst ` set ?o1"
      by (simp add: keys_spread [of ?init] entries_def insert_commute k0)
    with True assms(2) k1 s show ?thesis by simp
  next
    case False
    have dp: "distinct (map fst (entries (JObj ?p1)))"
      by (simp add: entries_def distinct_obj_delete distinct_obj_set distinct_spread)
    have kp: "keySet (JObj ?p1) = insert ''searchParams'' (fst ` set ?o1) - {''query''}"
      by (simp add: entries_def keys_obj_delete keys_obj_set k0)
    have "lookup (spread ?init (JObj ?p1)) ''searchParams'' = JObj qs"
      using lookup_spread [OF dp, of ?init "''searchParams''"] kp
      by (simp add: propOf_def entries_def lookup_obj_delete lookup_obj_set)
    moreover have "''query'' \<notin> fst ` set (spread ?init (JObj ?p1))"
      using kp by (simp add: keys_spread [of ?init])
    ultimately show ?thesis using False s by simp
  qed
qed

text \<open>The hypotheses of C5 hold of a call without options, with one parameter and
  with none.\<close>

theorem query_searchParams_witness:
  "''query'' \<notin> keySet JUndefined \<and> ''searchParams'' \<notin> keySet JUndefined \<and>
   [(''limit'', JStr ''1'')] \<noteq> [] \<and>
   lookup (sentOptions (query (examplePlatform okResponse) exampleRequest ''get'' ''/v3/domains''
             (JObj [(''limit'', JStr ''1'')]) JUndefined)) ''searchParams''
     = JObj [(''limit'', JStr ''1'')] \<and>
   ''query'' \<notin> fst ` set (sentOptions (query (examplePlatform okResponse) exampleRequest
             ''get'' ''/v3/domains'' (JObj [(''limit'', JStr ''1'')]) JUndefined)) \<and>
   ''searchParams'' \<notin> fst ` set (sentOptions (query (examplePlatform okResponse) exampleRequest
             ''get'' ''/v3/domains'' (JObj []) JUndefined))"
proof -
  have h: "''query'' \<notin> keySet JUndefined" "''searchParams'' \<notin> keySet JUndefined"
    by (simp_all add: entries_def)
  from query_searchParams [OF h, where qs = "[(''limit'', JStr ''1'')]"
      and P = "examplePlatform okResponse" and this = exampleRequest and m = "''get''"
      and path = "''/v3/domains''"]
    query_searchParams [OF h, where qs = "[]"
      and P = "examplePlatform okResponse" and this = exampleRequest and m = "''get''"
      and path = "''/v3/domains''"] h
  show ?thesis by simp
qed

text \<open>
  C5 as stated fails when the options carry the keys themselves, since they are spread
  after the \<^verbatim>\<open>query\<close> argument and passed through to the transport: with
  \<^verbatim>\<open>{query: {}}\<close> in the options the one-parameter query is not sent and the \<^verbatim>\<open>query\<close>
  key stays, and with \<^verbatim>\<open>{searchParams: {skip: '2'}}\<close> an empty query still sends a query
  string.
\<close>

theorem query_overridden_counterexample:
  "sentOptions (query (examplePlatform okResponse) exampleRequest ''get'' ''/v3/domains''
      (JObj [(''limit'', JStr ''1'')]) (JObj [(''query'', JObj [])]))
   = [(''method'', JStr ''GET''),
      (''headers'', JObj [(''Authorization'', JStr ''Basic base64(api:secret)'')]),
      (''throwHttpErrors'', JBool False), (''timeout'', JNum 60000),
      (''query'', JObj [])] \<and>
   sentOptions (query (examplePlatform okResponse) exampleRequest ''get'' ''/v3/domains''
      (JObj []) (JObj [(''searchParams'', JObj [(''skip'', JStr ''2'')])]))
   = [(''method'', JStr ''GET''),
      (''headers'', JObj [(''Authorization'', JStr ''Basic base64(api:secret)'')]),
      (''throwHttpErrors'', JBool False), (''timeout'', JNum 60000),
      (''query'', JObj []), (''searchParams'', JObj [(''skip'', JStr ''2'')])]"
  by code_simp

subsection \<open>The headers of a command\<close>

lemma sentHeaders_cong:
  "lookup (spread [] io) ''headers'' = lookup (spread [] io') ''headers'' \<Longrightarrow>
   sentHeaders (request P this m path io) = sentHeaders (request P this m' path' io')"
  by (simp add: request_sentHeaders mergeHeaders_def)

text \<open>
  C10, as amended. When the options of \<^verbatim>\<open>command\<close> (and so of \<^verbatim>\<open>post\<close>, \<^verbatim>\<open>put\<close>,
  \<^verbatim>\<open>patch\<close> and \<^verbatim>\<open>delete\<close>) have a \<^verbatim>\<open>headers\<close> key, the headers that the transport is
  handed are those of a plain \<^verbatim>\<open>request\<close> with these options: the default
  \<^verbatim>\<open>{'Content-Type': 'application/x-www-form-urlencoded'}\<close> plays no part.
  \<^verbatim>\<open>post(url, data, {headers: {'X-Foo': '1'}})\<close> is the request whose call-level headers
  are exactly \<^verbatim>\<open>{'X-Foo': '1'}\<close>. It carries a \<^verbatim>\<open>Content-Type\<close> exactly when the
  instance's default headers have a truthy one, and then that one; so it carries none
  when the default headers have none, and on an instance constructed without default
  headers its headers are \<^verbatim>\<open>Authorization\<close> and \<^verbatim>\<open>X-Foo\<close>.
\<close>

theorem command_headers_replace_default:
  "(''headers'' \<in> keySet opts \<longrightarrow>
      sentHeaders (command P this m path d opts) = sentHeaders (request P this m path opts) \<and>
      sentHeaders (post P this path d opts) = sentHeaders (request P this ''post'' path opts) \<and>
      sentHeaders (put P this path d opts) = sentHeaders (request P this ''put'' path opts) \<and>
      sentHeaders (patch P this path d opts) = sentHeaders (request P this ''patch'' path opts) \<and>
      sentHeaders (delete P this path d opts)
        = sentHeaders (request P this ''delete'' path opts)) \<and>
   post P this path d (JObj [(''headers'', JObj [(''X-Foo'', JStr ''1'')])])
     = request P this ''post'' path
         (JObj [(''headers'', JObj [(''X-Foo'', JStr ''1'')]),
                (''body'', objectToURLSearchParams d)]) \<and>
   (distinct (map fst (entries (headers this))) \<longrightarrow>
      (''Content-Type'' \<in> fst ` set (sentHeaders
          (post P this path d (JObj [(''headers'', JObj [(''X-Foo'', JStr ''1'')])])))
        \<longleftrightarrow> truthy (propOf (headers this) ''Content-Type'')) \<and>
      (truthy (propOf (headers this) ''Content-Type'') \<longrightarrow>
         lookup (sentHeaders
           (post P this path d (JObj [(''headers'', JObj [(''X-Foo'', JStr ''1'')])])))
           ''Content-Type''
         = propOf (headers this) ''Content-Type'')) \<and>
   (''Content-Type'' \<notin> keySet (headers this) \<longrightarrow>
      ''Content-Type'' \<notin> fst ` set (sentHeaders
         (post P this path d (JObj [(''headers'', JObj [(''X-Foo'', JStr ''1'')])])))) \<and>
   sentHeaders (post P (constructor u k l t JUndefined) path d
                  (JObj [(''headers'', JObj [(''X-Foo'', JStr ''1'')])]))
     = [(''Authorization'', JStr (''Basic '' @ Btoa P (u @ '':'' @ k))), (''X-Foo'', JStr ''1'')]"
proof -
  let ?opts = "JObj [(''headers'', JObj [(''X-Foo'', JStr ''1'')])]"
  let ?io = "JObj [(''headers'', JObj [(''X-Foo'', JStr ''1'')]), (''body'', objectToURLSearchParams d)]"
  let ?CT = "''Content-Type''"
  have 0: "''headers'' \<in> keySet opts \<Longrightarrow>
      sentHeaders (command P this m path x opts) = sentHeaders (request P this m path opts)"
    for m x
    unfolding command_def
    by (auto intro!: sentHeaders_cong command_call_headers)
  have 1: "''headers'' \<in> keySet opts \<longrightarrow>
      sentHeaders (command P this m path d opts) = sentHeaders (request P this m path opts) \<and>
      sentHeaders (post P this path d opts) = sentHeaders (request P this ''post'' path opts) \<and>
      sentHeaders (put P this path d opts) = sentHeaders (request P this ''put'' path opts) \<and>
      sentHeaders (patch P this path d opts) = sentHeaders (request P this ''patch'' path opts) \<and>
      sentHeaders (delete P this path d opts)
        = sentHeaders (request P this ''delete'' path opts)"
    by (simp add: 0 post_def put_def patch_def delete_def)
  have 2: "post P r path d ?opts = request P r ''post'' path ?io" for r
    by (simp add: post_def command_def spread_def entries_def obj_set_def)
  have dio: "distinct (map fst (entries ?io))" by (simp add: entries_def)
  have h: "lookup (spread [] ?io) ''headers'' = JObj [(''X-Foo'', JStr ''1'')]"
    using lookup_options0 [OF dio, of "''headers''"] by (simp add: propOf_def entries_def lookup_def)
  have m: "mergeHeaders P r (spread [] ?io) =
      obj_set ''X-Foo'' (JStr ''1'')
        (spread [(''Authorization'', JStr (''Basic '' @ Btoa P (username r @ '':'' @ key r)))]
           (headers r))" for r
    by (simp add: mergeHeaders_def h Let_def) (simp add: spread_def entries_def)
  let ?M = "mergeHeaders P this (spread [] ?io)"
  have s: "sentHeaders (post P r path d ?opts) =
      (if \<not> truthy (lookup (mergeHeaders P r (spread [] ?io)) ?CT)
       then obj_delete ?CT (mergeHeaders P r (spread [] ?io))
       else mergeHeaders P r (spread [] ?io))" for r
    unfolding 2 request_sentHeaders Let_def by (rule refl)
  have kM: "?CT \<in> fst ` set ?M \<longleftrightarrow> ?CT \<in> keySet (headers this)"
    by (simp add: m keys_obj_set keys_spread)
  have 3: "distinct (map fst (entries (headers this))) \<longrightarrow>
      (?CT \<in> fst ` set (sentHeaders (post P this path d ?opts))
        \<longleftrightarrow> truthy (propOf (headers this) ?CT)) \<and>
      (truthy (propOf (headers this) ?CT) \<longrightarrow>
         lookup (sentHeaders (post P this path d ?opts)) ?CT = propOf (headers this) ?CT)"
  proof
    assume dd: "distinct (map fst (entries (headers this)))"
    have lM: "lookup ?M ?CT = propOf (headers this) ?CT"
      using lookup_spread [OF dd, of _ ?CT]
      by (simp add: m lookup_obj_set lookup_Cons propOf_def lookup_absent)
    have in_keys: "?CT \<in> keySet (headers this)" if "truthy (propOf (headers this) ?CT)"
      using that truthy_propOf_key by blast
    show "(?CT \<in> fst ` set (sentHeaders (post P this path d ?opts))
        \<longleftrightarrow> truthy (propOf (headers this) ?CT)) \<and>
      (truthy (propOf (headers this) ?CT) \<longrightarrow>
         lookup (sentHeaders (post P this path d ?opts)) ?CT = propOf (headers this) ?CT)"
      using in_keys kM by (simp add: s lM keys_obj_delete)
  qed
  have 4: "?CT \<notin> keySet (headers this) \<longrightarrow>
      ?CT \<notin> fst ` set (sentHeaders (post P this path d ?opts))"
    using kM by (simp add: s keys_obj_delete)
  have x: "arrayIndex ''X-Foo'' = None" by code_simp
  have 5: "sentHeaders (post P (constructor u k l t JUndefined) path d ?opts)
     = [(''Authorization'', JStr (''Basic '' @ Btoa P (u @ '':'' @ k))), (''X-Foo'', JStr ''1'')]"
    by (simp add: s m)
       (simp add: constructor_def truthy_def spread_def entries_def lookup_def obj_delete_def
          obj_set_fresh x)
  from 1 2 3 4 5 show ?thesis by blast
qed

text \<open>The hypotheses of C10 hold of the example of the claim on the example instance,
  whose default headers are empty, and on an instance whose default headers have a
  \<^verbatim>\<open>Content-Type\<close>.\<close>

theorem command_headers_replace_default_witness:
  "''headers'' \<in> keySet (JObj [(''headers'', JObj [(''X-Foo'', JStr ''1'')])]) \<and>
   sentHeaders (command (examplePlatform okResponse) exampleRequest ''post'' ''/v3/messages''
       (JSearchParams [(''to'', JStr ''a@b.c'')]) (JObj [(''headers'', JObj [(''X-Foo'', JStr ''1'')])]))
     = sentHeaders (request (examplePlatform okResponse) exampleRequest ''post'' ''/v3/messages''
       (JObj [(''headers'', JObj [(''X-Foo'', JStr ''1'')])])) \<and>
   sentHeaders (put (examplePlatform okResponse) exampleRequest ''/v3/messages''
       (JSearchParams [(''to'', JStr ''a@b.c'')]) (JObj [(''headers'', JObj [(''X-Foo'', JStr ''1'')])]))
     = sentHeaders (request (examplePlatform okResponse) exampleRequest ''put'' ''/v3/messages''
       (JObj [(''headers'', JObj [(''X-Foo'', JStr ''1'')])])) \<and>
   ''Content-Type'' \<notin> keySet (headers exampleRequest) \<and>
   ''Content-Type'' \<notin> fst ` set (sentHeaders
       (post (examplePlatform okResponse) exampleRequest ''/v3/messages''
          (JSearchParams [(''to'', JStr ''a@b.c'')])
          (JObj [(''headers'', JObj [(''X-Foo'', JStr ''1'')])]))) \<and>
   distinct (map fst (entries (headers
       (exampleRequest\<lparr>headers := JObj [(''Content-Type'', JStr ''application/json'')]\<rparr>)))) \<and>
   truthy (propOf (headers
       (exampleRequest\<lparr>headers := JObj [(''Content-Type'', JStr ''application/json'')]\<rparr>))
       ''Content-Type'') \<and>
   lookup (sentHeaders
       (post (examplePlatform okResponse)
          (exampleRequest\<lparr>headers := JObj [(''Content-Type'', JStr ''application/json'')]\<rparr>)
          ''/v3/messages'' (JSearchParams [(''to'', JStr ''a@b.c'')])
          (JObj [(''headers'', JObj [(''X-Foo'', JStr ''1'')])]))) ''Content-Type''
     = propOf (headers
         (exampleRequest\<lparr>headers := JObj [(''Content-Type'', JStr ''application/json'')]\<rparr>))
         ''Content-Type''"
proof -
  let ?req = "exampleRequest\<lparr>headers := JObj [(''Content-Type'', JStr ''application/json'')]\<rparr>"
  have h: "''headers'' \<in> keySet (JObj [(''headers'', JObj [(''X-Foo'', JStr ''1'')])])"
    by (simp add: entries_def)
  have c: "''Content-Type'' \<notin> keySet (headers exampleRequest)"
    by (simp add: exampleRequest_def constructor_def truthy_def entries_def)
  have dd: "distinct (map fst (entries (headers ?req)))" by (simp add: entries_def)
  have tt: "truthy (propOf (headers ?req) ''Content-Type'')"
    by (simp add: propOf_def entries_def lookup_def truthy_def)
  note w1 = command_headers_replace_default [where P = "examplePlatform okResponse"
      and this = exampleRequest and m = "''post''" and path = "''/v3/messages''"
      and d = "JSearchParams [(''to'', JStr ''a@b.c'')]"
      and opts = "JObj [(''headers'', JObj [(''X-Foo'', JStr ''1'')])]"
      and u = "''api''" and k = "''secret''" and l = "''https://api.example.net''"
      and t = "JNum 60000"]
  note w2 = command_headers_replace_default [where P = "examplePlatform okResponse"
      and this = ?req and m = "''post''" and path = "''/v3/messages''"
      and d = "JSearchParams [(''to'', JStr ''a@b.c'')]"
      and opts = "JObj [(''headers'', JObj [(''X-Foo'', JStr ''1'')])]"
      and u = "''api''" and k = "''secret''" and l = "''https://api.example.net''"
      and t = "JNum 60000"]
  from w1 w2 h c dd tt show ?thesis by blast
qed

text \<open>
  C10 as stated fails on an instance whose default headers have a \<^verbatim>\<open>Content-Type\<close>:
  the call-level headers \<^verbatim>\<open>{'X-Foo': '1'}\<close> replace the default of \<^verbatim>\<open>command\<close>, the
  merge keeps the instance's \<^verbatim>\<open>application/json\<close>, it is truthy and is not deleted, and
  the outgoing request carries it.
\<close>

theorem default_content_type_counterexample:
  "sentHeaders
     (post (examplePlatform okResponse)
        (constructor ''api'' ''secret'' ''https://api.example.net'' (JNum 60000)
           (JObj [(''Content-Type'', JStr ''application/json'')]))
        ''/v3/messages'' (JObj [(''to'', JStr ''a@b.c'')])
        (JObj [(''headers'', JObj [(''X-Foo'', JStr ''1'')])]))
   = [(''Authorization'', JStr ''Basic base64(api:secret)''),
      (''Content-Type'', JStr ''application/json''),
      (''X-Foo'', JStr ''1'')]"
  by code_simp

subsection \<open>Responses\<close>

lemma listen_chunks:
  "listen P acc (map Data cs @ End # rest) = Resolved (utf8 P (concat (acc @ cs)))"
  by (induction cs arbitrary: acc) simp_all

lemma listen_error:
  "listen P acc (map Data cs @ Error e # rest) = Rejected (Foreign e)"
  by (induction cs arbitrary: acc) simp_all

lemma stream_test: "truthy v \<and> isStream v = Inr True \<longleftrightarrow> hasCallablePipe v"
  by (cases v) (auto simp: isStream_def typeof_def member_def nullish_def truthy_def bind_def
      propOf_def entries_def)

text \<open>
  C1, as amended. Let the transport answer a \<^verbatim>\<open>request\<close> with a response. If \<^verbatim>\<open>ok\<close> is
  false and the body has a callable \<^verbatim>\<open>pipe\<close> and emits chunks and then ends, the call
  rejects with the \<^verbatim>\<open>APIError\<close> of the response's status and status text whose message
  is the decoding of the concatenated chunks. If \<^verbatim>\<open>ok\<close> is false, the body has no
  callable \<^verbatim>\<open>pipe\<close> and \<^verbatim>\<open>json()\<close> resolves, the message is the whole parsed value. If
  \<^verbatim>\<open>ok\<close> is true and \<^verbatim>\<open>json()\<close> resolves, the call resolves to the parsed value and the
  status. When the source of the message fails instead (the stream emits \<^verbatim>\<open>error\<close>
  before it ends, or \<^verbatim>\<open>json()\<close> rejects), the call rejects with that failure.
\<close>

theorem response_normalized:
  assumes "ky P (sentUrl (request P this m path io)) (sentOptions (request P this m path io))
           = Resolved r"
  shows "(\<not> ok r \<and> hasCallablePipe (body r) \<and> bodyEvents r = map Data cs @ End # rest \<longrightarrow>
            settled (request P this m path io)
              = Rejected (APIError (status r) (statusText r) (JStr (utf8 P (concat cs))))) \<and>
         (\<not> ok r \<and> \<not> hasCallablePipe (body r) \<and> json r = Resolved j \<longrightarrow>
            settled (request P this m path io)
              = Rejected (APIError (status r) (statusText r) j)) \<and>
         (ok r \<and> json r = Resolved j \<longrightarrow>
            settled (request P this m path io)
              = Resolved \<lparr>resBody = j, resStatus = status r\<rparr>) \<and>
         (\<not> ok r \<and> hasCallablePipe (body r) \<and> bodyEvents r = map Data cs @ Error e # rest \<longrightarrow>
            settled (request P this m path io) = Rejected (Foreign e)) \<and>
         (\<not> hasCallablePipe (body r) \<and> json r = Rejected f \<longrightarrow>
            settled (request P this m path io) = Rejected f) \<and>
         (ok r \<and> json r = Rejected f \<longrightarrow>
            settled (request P this m path io) = Rejected f)"
proof -
  have s: "settled (request P this m path io) = normalize P r"
    using assms by (simp add: request_def Let_def await_def)
  have t: "(truthy (body r) \<and> isStream (body r) = Inr True) = hasCallablePipe (body r)"
    by (rule stream_test)
  show ?thesis
    unfolding s normalize_def t
    by (simp add: await_def streamToString_def listen_chunks listen_error)
qed

text \<open>The hypotheses of C1 hold of the streamed error, whose message is \<^verbatim>\<open>"abcd"\<close>,
  of the JSON error, whose message is the whole object, and of the success.\<close>

theorem response_normalized_witness:
  "ky (examplePlatform streamedError)
      (sentUrl (request (examplePlatform streamedError) exampleRequest ''get'' ''/v3/domains'' JUndefined))
      (sentOptions (request (examplePlatform streamedError) exampleRequest ''get'' ''/v3/domains'' JUndefined))
     = Resolved streamedError \<and>
   \<not> ok streamedError \<and> hasCallablePipe (body streamedError) \<and>
   bodyEvents streamedError = map Data [[97, 98], [99, 100]] @ End # [] \<and>
   settled (request (examplePlatform streamedError) exampleRequest ''get'' ''/v3/domains'' JUndefined)
     = Rejected (APIError (status streamedError) (statusText streamedError)
         (JStr (utf8 (examplePlatform streamedError) (concat [[97, 98], [99, 100]])))) \<and>
   utf8 (examplePlatform streamedError) (concat [[97, 98], [99, 100]]) = ''abcd'' \<and>
   ky (examplePlatform jsonError)
      (sentUrl (request (examplePlatform jsonError) exampleRequest ''get'' ''/v3/domains'' JUndefined))
      (sentOptions (request (examplePlatform jsonError) exampleRequest ''get'' ''/v3/domains'' JUndefined))
     = Resolved jsonError \<and>
   \<not> ok jsonError \<and> \<not> hasCallablePipe (body jsonError) \<and>
   json jsonError = Resolved (JObj [(''message'', JStr ''bad'')]) \<and>
   settled (request (examplePlatform jsonError) exampleRequest ''get'' ''/v3/domains'' JUndefined)
     = Rejected (APIError (status jsonError) (statusText jsonError)
         (JObj [(''message'', JStr ''bad'')])) \<and>
   ky (examplePlatform okResponse)
      (sentUrl (request (examplePlatform okResponse) exampleRequest ''get'' ''/v3/domains'' JUndefined))
      (sentOptions (request (examplePlatform okResponse) exampleRequest ''get'' ''/v3/domains'' JUndefined))
     = Resolved okResponse \<and>
   ok okResponse \<and> json okResponse = Resolved (JObj [(''items'', JArr [])]) \<and>
   settled (request (examplePlatform okResponse) exampleRequest ''get'' ''/v3/domains'' JUndefined)
     = Resolved \<lparr>resBody = JObj [(''items'', JArr [])], resStatus = status okResponse\<rparr>"
proof -
  have k: "ky (examplePlatform r) u init = Resolved r" for r u init
    by (simp add: examplePlatform_def)
  have s: "\<not> ok streamedError" "hasCallablePipe (body streamedError)"
    "bodyEvents streamedError = map Data [[97, 98], [99, 100]] @ End # []"
    by (simp_all add: streamedError_def typeof_def propOf_def entries_def lookup_def)
  have d: "utf8 (examplePlatform streamedError) (concat [[97, 98], [99, 100]]) = ''abcd''"
    by code_simp
  have j: "\<not> ok jsonError" "\<not> hasCallablePipe (body jsonError)"
    "json jsonError = Resolved (JObj [(''message'', JStr ''bad'')])"
    by (simp_all add: jsonError_def typeof_def propOf_def entries_def lookup_def)
  have g: "ok okResponse" "json okResponse = Resolved (JObj [(''items'', JArr [])])"
    by (simp_all add: okResponse_def)
  note a = response_normalized [where P = "examplePlatform streamedError"
      and this = exampleRequest and m = "''get''" and path = "''/v3/domains''"
      and io = JUndefined and r = streamedError
      and cs = "[[97, 98], [99, 100]]" and rest = "[]", OF k]
  note b = response_normalized [where P = "examplePlatform jsonError"
      and this = exampleRequest and m = "''get''" and path = "''/v3/domains''"
      and io = JUndefined and r = jsonError
      and j = "JObj [(''message'', JStr ''bad'')]", OF k]
  note c = response_normalized [where P = "examplePlatform okResponse"
      and this = exampleRequest and m = "''get''" and path = "''/v3/domains''"
      and io = JUndefined and r = okResponse
      and j = "JObj [(''items'', JArr [])]", OF k]
  from a b c k s d j g
  show ?thesis by simp
qed

text \<open>
  C1 as stated fails for an error response whose body is not a stream and not JSON:
  \<^verbatim>\<open>json()\<close> rejects, nothing catches it, and the call rejects with that reason and
  not with an \<^verbatim>\<open>APIError\<close>.
\<close>

theorem non_json_error_counterexample:
  "\<not> ok badGateway \<and>
   settled (request (examplePlatform badGateway) exampleRequest ''get'' ''/v3/domains'' JUndefined)
     = Rejected (Foreign (JStr ''SyntaxError: Unexpected token <''))"
  by (simp add: request_def Let_def examplePlatform_def badGateway_def await_def normalize_def
      truthy_def)

section \<open>Properties of the request on the store\<close>

lemma requestStore_run:
  "requestStore P m path io s =
     (let o0 = (case io of None \<Rightarrow> [] | Some a \<Rightarrow> spread [] (JObj (objAt s a)));
          h0 = mergeHeaders P (self s) o0;
          o1 = obj_delete ''headers'' o0;
          h1 = (if \<not> truthy (lookup h0 ''Content-Type'')
                then obj_delete ''Content-Type'' h0 else h0);
          init = spread [(''method'', JStr (toLocaleUpperCase P m)),
                         (''headers'', JObj h1),
                         (''throwHttpErrors'', JBool False),
                         (''timeout'', timeout (self s))]
                        (JObj (moveQuery o1))
      in (\<lparr>sentUrl = urljoin P (url (self s)) path, sentOptions = init,
           settled = await (ky P (urljoin P (url (self s)) path) init) (normalize P)\<rparr>,
          s\<lparr>heap := heap s @ [o1, h1, moveQuery o1, init]\<rparr>))"
proof -
  define o0 where "o0 = (case io of None \<Rightarrow> [] | Some a \<Rightarrow> spread [] (JObj (objAt s a)))"
  define h0 where "h0 = mergeHeaders P (self s) o0"
  define o1 where "o1 = obj_delete ''headers'' o0"
  let ?c1 = "truthy (lookup h0 ''Content-Type'')"
  let ?c2 = "truthy (lookup o1 ''query'')"
  let ?c3 = "getOwnPropertyNames (lookup o1 ''query'') = []"
  have s1: "alloc o0 s = (length (heap s), s\<lparr>heap := heap s @ [o0]\<rparr>)"
    by (simp add: alloc_def)
  show ?thesis
    unfolding requestStore_def o0_def [symmetric] s1
    by (cases ?c1; cases ?c2; cases ?c3;
        simp add: alloc_def remove_def assign_def objAt_def Let_def nth_append
          list_update_append moveQuery_def
          h0_def [symmetric] o1_def [symmetric]
          split del: if_split)
qed

text \<open>The exchange of the request on the store is the one of \<open>request\<close> on the value
  of the caller's object.\<close>

lemma requestStore_refines_request:
  "fst (requestStore P m path (Some a) s) = request P (self s) m path (JObj (objAt s a))"
  "fst (requestStore P m path None s) = request P (self s) m path JUndefined"
  by (simp_all add: requestStore_run request_def Let_def)
     (simp_all add: spread_def entries_def)

text \<open>
  C9. A \<^verbatim>\<open>request\<close> leaves the fields of \<^verbatim>\<open>this\<close> and every object that was on the heap
  before the call as they were: all it writes to are the objects it allocates. In
  particular the caller's \<^verbatim>\<open>inputOptions\<close> object is unchanged, with its \<^verbatim>\<open>headers\<close>
  and \<^verbatim>\<open>query\<close>.
\<close>

theorem request_frame:
  "self (snd (requestStore P m path io s)) = self s \<and>
   take (length (heap s)) (heap (snd (requestStore P m path io s))) = heap s \<and>
   (io = Some a \<and> a < length (heap s) \<longrightarrow>
      objAt (snd (requestStore P m path io s)) a = objAt s a)"
  by (simp add: requestStore_run Let_def objAt_def nth_append)

text \<open>The hypothesis of C9 holds of a caller's object with \<^verbatim>\<open>headers\<close> and
  \<^verbatim>\<open>query\<close>: the transport is handed the query as \<^verbatim>\<open>searchParams\<close>, and the object
  still has both keys.\<close>

theorem request_frame_witness:
  "Some 0 = Some (0::nat) \<and>
   0 < length (heap \<lparr>self = exampleRequest,
                     heap = [[(''headers'', JObj [(''X-Trace'', JStr ''1'')]),
                              (''query'', JObj [(''limit'', JStr ''1'')])]]\<rparr>) \<and>
   objAt (snd (requestStore (examplePlatform okResponse) ''get'' ''/v3/domains'' (Some 0)
                 \<lparr>self = exampleRequest,
                  heap = [[(''headers'', JObj [(''X-Trace'', JStr ''1'')]),
                           (''query'', JObj [(''limit'', JStr ''1'')])]]\<rparr>)) 0
     = [(''headers'', JObj [(''X-Trace'', JStr ''1'')]), (''query'', JObj [(''limit'', JStr ''1'')])] \<and>
   sentOptions (fst (requestStore (examplePlatform okResponse) ''get'' ''/v3/domains'' (Some 0)
                 \<lparr>self = exampleRequest,
                  heap = [[(''headers'', JObj [(''X-Trace'', JStr ''1'')]),
                           (''query'', JObj [(''limit'', JStr ''1'')])]]\<rparr>))
     = [(''method'', JStr ''GET''),
        (''headers'', JObj [(''Authorization'', JStr ''Basic base64(api:secret)''),
                            (''X-Trace'', JStr ''1'')]),
        (''throwHttpErrors'', JBool False), (''timeout'', JNum 60000),
        (''searchParams'', JObj [(''limit'', JStr ''1'')])]"
proof -
  let ?s = "\<lparr>self = exampleRequest,
                  heap = [[(''headers'', JObj [(''X-Trace'', JStr ''1'')]),
                           (''query'', JObj [(''limit'', JStr ''1'')])]]\<rparr>"
  have o: "sentOptions (fst (requestStore (examplePlatform okResponse) ''get'' ''/v3/domains''
              (Some 0) ?s))
     = [(''method'', JStr ''GET''),
        (''headers'', JObj [(''Authorization'', JStr ''Basic base64(api:secret)''),
                            (''X-Trace'', JStr ''1'')]),
        (''throwHttpErrors'', JBool False), (''timeout'', JNum 60000),
        (''searchParams'', JObj [(''limit'', JStr ''1'')])]"
    by code_simp
  from request_frame [where P = "examplePlatform okResponse" and m = "''get''"
      and path = "''/v3/domains''" and io = "Some 0" and a = 0 and s = ?s] o
  show ?thesis by (simp add: objAt_def)
qed

end
